theory Spec2Isabelle
  imports Complex_Main
begin

section \<open>Python values and errors\<close>

text \<open>
  The sources are Python. Integers are unbounded (\<open>int\<close>), \<open>//\<close> and \<open>%\<close> are floor
  division and its remainder (HOL's \<open>div\<close> and \<open>mod\<close> on \<open>int\<close>), and every exception
  the modelled code can raise is a value of \<open>py_error\<close>; a function that can raise returns
  \<open>py_error + 'a\<close>.
\<close>

datatype py_error =
    ZeroDivisionError
  | IndexError
  | KeyError
  | TypeError
  | AssertionError
  | AttributeError
  | NotImplementedError string
  | ValueError string
  | Exception string
  | JSONDecodeError
  | OSError
  | UnboundLocalError
  | NameError

text \<open>
  Slicing never raises: a bound \<open>k\<close> of a slice of a sequence of length \<open>n\<close> counts from
  the end when negative and is clipped to \<open>0 .. n\<close>.
\<close>

definition py_bound :: "nat \<Rightarrow> int \<Rightarrow> nat" where
  "py_bound n k = (if k < 0 then nat (int n + k) else min (nat k) n)"

definition py_slice :: "'a list \<Rightarrow> int \<Rightarrow> int \<Rightarrow> 'a list" where
  "py_slice xs a b =
     (let lo = py_bound (length xs) a; hi = py_bound (length xs) b
      in take (hi - lo) (drop lo xs))"

definition py_slice_to :: "'a list \<Rightarrow> int \<Rightarrow> 'a list" where
  "py_slice_to xs b = take (py_bound (length xs) b) xs"

primrec map_err :: "('a \<Rightarrow> 'e + 'b) \<Rightarrow> 'a list \<Rightarrow> 'e + 'b list" where
  "map_err f [] = Inr []"
| "map_err f (x # xs) =
     (case f x of
        Inl e \<Rightarrow> Inl e
      | Inr y \<Rightarrow> (case map_err f xs of Inl e \<Rightarrow> Inl e | Inr ys \<Rightarrow> Inr (y # ys)))"

section \<open>The inference sampler (eval/refcoco/evaluate_grounding.py)\<close>

text \<open>
  \<open>InferenceSampler._get_local_indices\<close>: the list \<open>shard_sizes\<close> of per-rank sizes, and
  the range \<open>range(begin, end)\<close> as the pair of its bounds.
\<close>

definition shard_sizes :: "int \<Rightarrow> int \<Rightarrow> int list" where
  "shard_sizes total_size world_size =
     map (\<lambda>r. total_size div world_size + (if r < total_size mod world_size then 1 else 0))
       [0..world_size - 1]"

definition get_local_indices :: "int \<Rightarrow> int \<Rightarrow> int \<Rightarrow> py_error + (int \<times> int)" where
  "get_local_indices total_size world_size rank =
     (if world_size = 0 then Inl ZeroDivisionError
      else let ss = shard_sizes total_size world_size;
               b = sum_list (py_slice_to ss rank);
               e = min (sum_list (py_slice_to ss (rank + 1))) total_size
           in Inr (b, e))"

text \<open>The indices a rank iterates over, and how many they are (\<open>__iter__\<close>, \<open>__len__\<close>).\<close>

definition local_indices :: "int \<Rightarrow> int \<Rightarrow> int \<Rightarrow> int set" where
  "local_indices total_size world_size rank =
     (case get_local_indices total_size world_size rank of
        Inl _ \<Rightarrow> {} | Inr (b, e) \<Rightarrow> {b..<e})"

definition local_size :: "int \<Rightarrow> int \<Rightarrow> int \<Rightarrow> int" where
  "local_size total_size world_size rank =
     (case get_local_indices total_size world_size rank of
        Inl _ \<Rightarrow> 0 | Inr (b, e) \<Rightarrow> max 0 (e - b))"

section \<open>The supervised dataset (train/internvl_chat_pretrain.py)\<close>

subsection \<open>The slice of annotation lines a rank keeps\<close>

text \<open>
  \<open>LazySupervisedDataset.__init__\<close> reads all lines of the annotation file and keeps
  \<open>raw_data[start_line:end_line]\<close>; \<open>lazy_init\<close> is the value of \<open>self.raw_data\<close> after it.
  \<open>__len__\<close> multiplies the length of the slice by the world size, and \<open>__getitem__\<close> reads
  the line \<open>self.raw_data[i % len(self.raw_data)]\<close> (on a retry, a random index of the same
  slice).
\<close>

definition lazy_init :: "'a list \<Rightarrow> int \<Rightarrow> int \<Rightarrow> py_error + 'a list" where
  "lazy_init lines total_ranks current_rank =
     (if total_ranks = 0 then Inl ZeroDivisionError
      else let total_lines = int (length lines);
               lines_per_rank = total_lines div total_ranks;
               start_line = lines_per_rank * current_rank;
               end_line = start_line + lines_per_rank
           in Inr (py_slice lines start_line end_line))"

definition lazy_len :: "'a list \<Rightarrow> int \<Rightarrow> int" where
  "lazy_len raw_data world_size = int (length raw_data) * world_size"

definition lazy_line :: "'a list \<Rightarrow> int \<Rightarrow> py_error + 'a" where
  "lazy_line raw_data i =
     (if raw_data = [] then Inl ZeroDivisionError
      else Inr (raw_data ! nat (i mod int (length raw_data))))"

subsection \<open>Dynamic tiling\<close>

text \<open>
  A grid is a pair \<open>(i, j)\<close>; the source calls it a ratio and compares \<open>i / j\<close> with the
  aspect ratio of the image. Both quotients are Python true divisions, whose results are
  doubles: \<open>py_truediv\<close> rounds the exact quotient with a function \<open>rnd\<close> that every
  definition below takes as a parameter (the rounding to the nearest double, whose overflow
  is not modelled), and so does the subtraction inside \<open>abs\<close>. Theorems that hold for every
  \<open>rnd\<close> do not depend on the rounding.
\<close>

type_synonym ratio = "int \<times> int"

definition py_truediv :: "(real \<Rightarrow> real) \<Rightarrow> int \<Rightarrow> int \<Rightarrow> py_error + real" where
  "py_truediv rnd a b = (if b = 0 then Inl ZeroDivisionError else Inr (rnd (of_int a / of_int b)))"

text \<open>
  The generator expression of \<open>dynamic_preprocess\<close>, in the order it yields its pairs. The
  source collects them in a \<open>set\<close> and iterates over the set, in an order Python does not
  specify: \<open>best_grid\<close> takes that order as the parameter \<open>set_order\<close>, which maps the
  generated sequence to the sequence of the set's elements as the loop meets them.
  \<open>set_iteration\<close> says that \<open>set_order\<close> is such an order: each element once.
\<close>

definition target_ratios_gen :: "int \<Rightarrow> int \<Rightarrow> ratio list" where
  "target_ratios_gen min_num max_num =
     [(i, j). n \<leftarrow> [min_num..max_num], i \<leftarrow> [1..n], j \<leftarrow> [1..n],
              i * j \<le> max_num \<and> i * j \<ge> min_num]"

text \<open>
  \<open>find_closest_aspect_ratio\<close>: the loop over \<open>target_ratios\<close>, on the pair of
  \<open>best_ratio_diff\<close> (\<open>None\<close> is \<open>float('inf')\<close>) and \<open>best_ratio\<close>, then the two special
  cases.
\<close>

fun closest_loop ::
  "(real \<Rightarrow> real) \<Rightarrow> real \<Rightarrow> ratio list \<Rightarrow> real option \<times> ratio
     \<Rightarrow> py_error + (real option \<times> ratio)" where
  "closest_loop rnd aspect_ratio [] acc = Inr acc"
| "closest_loop rnd aspect_ratio (ratio # rest) (best_ratio_diff, best_ratio) =
     (case py_truediv rnd (fst ratio) (snd ratio) of
        Inl e \<Rightarrow> Inl e
      | Inr target_aspect_ratio \<Rightarrow>
          let ratio_diff = \<bar>rnd (aspect_ratio - target_aspect_ratio)\<bar>
          in if (case best_ratio_diff of None \<Rightarrow> True | Some d \<Rightarrow> ratio_diff < d)
             then closest_loop rnd aspect_ratio rest (Some ratio_diff, ratio)
             else closest_loop rnd aspect_ratio rest (best_ratio_diff, best_ratio))"

definition special_cases :: "int \<Rightarrow> int \<Rightarrow> ratio \<Rightarrow> ratio" where
  "special_cases image_size area best_ratio =
     (let best_ratio =
            (if (best_ratio = (2, 3) \<or> best_ratio = (3, 2))
                \<and> area < image_size * image_size * 4
             then (2, 2) else best_ratio)
      in if best_ratio = (1, 1) \<or> best_ratio = (2, 2)
         then (if area < image_size * image_size then (1, 1) else (2, 2))
         else best_ratio)"

definition find_closest_aspect_ratio ::
  "(real \<Rightarrow> real) \<Rightarrow> int \<Rightarrow> real \<Rightarrow> ratio list \<Rightarrow> int \<Rightarrow> int \<Rightarrow> py_error + ratio" where
  "find_closest_aspect_ratio rnd image_size aspect_ratio target_ratios width height =
     (case closest_loop rnd aspect_ratio target_ratios (None, (1, 1)) of
        Inl e \<Rightarrow> Inl e
      | Inr (best_ratio_diff, best_ratio) \<Rightarrow>
          let area = width * height
          in Inr (special_cases image_size area best_ratio))"

text \<open>
  The first lines of \<open>dynamic_preprocess\<close>, up to the call of
  \<open>find_closest_aspect_ratio\<close>: the grid the image is tiled with.
\<close>

definition best_grid ::
  "(real \<Rightarrow> real) \<Rightarrow> (ratio list \<Rightarrow> ratio list) \<Rightarrow> int \<Rightarrow> int \<Rightarrow> int \<Rightarrow> int \<Rightarrow> int
     \<Rightarrow> py_error + ratio" where
  "best_grid rnd set_order image_size orig_width orig_height min_num max_num =
     (case py_truediv rnd orig_width orig_height of
        Inl e \<Rightarrow> Inl e
      | Inr aspect_ratio \<Rightarrow>
          let target_ratios = set_order (target_ratios_gen min_num max_num)
          in find_closest_aspect_ratio rnd image_size aspect_ratio target_ratios
               orig_width orig_height)"

text \<open>Two iteration orders: \<open>remdups\<close> keeps the last occurrence of each pair, \<open>reversed_order\<close> reverses that.\<close>

definition reversed_order :: "ratio list \<Rightarrow> ratio list" where
  "reversed_order xs = rev (remdups xs)"

text \<open>
  What the rounding has to satisfy for a square image: \<open>1\<close> and \<open>0\<close> are doubles, and no
  grid with \<open>i \<noteq> j\<close> has a quotient so close to 1 that its difference from 1 rounds
  to 0.
\<close>

definition exact_on_squares :: "(real \<Rightarrow> real) \<Rightarrow> ratio list \<Rightarrow> bool" where
  "exact_on_squares rnd rs =
     (rnd 1 = 1 \<and> rnd 0 = 0 \<and>
      (\<forall>r\<in>set rs. fst r \<noteq> snd r \<longrightarrow> rnd (1 - rnd (of_int (fst r) / of_int (snd r))) \<noteq> 0))"

definition set_iteration :: "(ratio list \<Rightarrow> ratio list) \<Rightarrow> bool" where
  "set_iteration set_order = (\<forall>xs. distinct (set_order xs) \<and> set (set_order xs) = set xs)"

text \<open>
  An image is the source image of a given size, or the result of \<open>resize\<close> or \<open>crop\<close>;
  its pixels are not modelled. \<open>im_size\<close> is PIL's \<open>Image.size\<close>: \<open>resize\<close> gives the
  requested size and \<open>crop\<close> the size of the box.
\<close>

datatype pil_image =
    Source int int
  | Resize pil_image "int \<times> int"
  | Crop pil_image "int \<times> int \<times> int \<times> int"

fun im_size :: "pil_image \<Rightarrow> int \<times> int" where
  "im_size (Source w h) = (w, h)"
| "im_size (Resize im sz) = sz"
| "im_size (Crop im (x0, y0, x1, y1)) = (x1 - x0, y1 - y0)"

text \<open>The box of the \<open>i\<close>-th tile, as the loop of \<open>dynamic_preprocess\<close> computes it.\<close>

definition crop_box :: "int \<Rightarrow> int \<Rightarrow> int \<Rightarrow> py_error + (int \<times> int \<times> int \<times> int)" where
  "crop_box image_size target_width i =
     (if image_size = 0 \<or> target_width div image_size = 0 then Inl ZeroDivisionError
      else Inr ((i mod (target_width div image_size)) * image_size,
                (i div (target_width div image_size)) * image_size,
                ((i mod (target_width div image_size)) + 1) * image_size,
                ((i div (target_width div image_size)) + 1) * image_size))"

definition dynamic_preprocess ::
  "(real \<Rightarrow> real) \<Rightarrow> (ratio list \<Rightarrow> ratio list) \<Rightarrow> int \<Rightarrow> bool \<Rightarrow> pil_image \<Rightarrow> int \<Rightarrow> int
     \<Rightarrow> py_error + pil_image list" where
  "dynamic_preprocess rnd set_order image_size use_thumbnail img min_num max_num =
     (case best_grid rnd set_order image_size (fst (im_size img)) (snd (im_size img))
             min_num max_num of
        Inl e \<Rightarrow> Inl e
      | Inr target_aspect_ratio \<Rightarrow>
          let target_width = image_size * fst target_aspect_ratio;
              target_height = image_size * snd target_aspect_ratio;
              blocks = fst target_aspect_ratio * snd target_aspect_ratio;
              resized_img = Resize img (target_width, target_height)
          in (case map_err (\<lambda>i. map_sum id (Crop resized_img)
                                     (crop_box image_size target_width i))
                     [0..blocks - 1] of
                Inl e \<Rightarrow> Inl e
              | Inr processed_images \<Rightarrow>
                  (if int (length processed_images) \<noteq> blocks then Inl AssertionError
                   else if use_thumbnail \<and> length processed_images \<noteq> 1
                   then Inr (processed_images @ [Resize img (image_size, image_size)])
                   else Inr processed_images)))"

text \<open>The score the loop computes for a grid.\<close>

definition ratio_diff :: "(real \<Rightarrow> real) \<Rightarrow> real \<Rightarrow> ratio \<Rightarrow> real" where
  "ratio_diff rnd a r = \<bar>rnd (a - rnd (of_int (fst r) / of_int (snd r)))\<bar>"

section \<open>The interleaved dataset (train/interleaved_dataset.py)\<close>

subsection \<open>JSON lines\<close>

text \<open>
  \<open>json.loads\<close> is a parameter \<open>json_loads\<close>: it raises (\<open>Inl\<close>) or returns a value,
  which is Python's \<open>None\<close> for the JSON text \<open>null\<close> (\<open>Inr None\<close>) and anything else
  otherwise (\<open>Inr (Some v)\<close>).

  \<open>load_json_line\<close>: the loop runs while \<open>_try_times < try_times\<close>; \<open>trim_loop\<close> takes
  the number of attempts that are left and returns \<open>data\<close> and \<open>line_str\<close> as they are when
  the loop ends. \<open>line_str[:-1]\<close> is \<open>butlast\<close>. With no attempt at all \<open>data\<close> is never
  assigned and the test \<open>data is None\<close> raises.
\<close>

fun trim_loop :: "(string \<Rightarrow> py_error + 'j option) \<Rightarrow> nat \<Rightarrow> string \<Rightarrow> 'j option \<times> string" where
  "trim_loop json_loads 0 line_str = (None, line_str)"
| "trim_loop json_loads (Suc n) line_str =
     (case json_loads line_str of
        Inr data \<Rightarrow> (data, line_str)
      | Inl e \<Rightarrow> trim_loop json_loads n (butlast line_str))"

definition load_json_line ::
  "(string \<Rightarrow> py_error + 'j option) \<Rightarrow> string \<Rightarrow> int \<Rightarrow> py_error + 'j" where
  "load_json_line json_loads line_str try_times =
     (if try_times \<le> 0 then Inl UnboundLocalError
      else case trim_loop json_loads (nat try_times) line_str of
             (None, line_str') \<Rightarrow> Inl (Exception (''Failed to get '' @ line_str'))
           | (Some data, line_str') \<Rightarrow> Inr data)"

text \<open>The line without its last \<open>k\<close> characters.\<close>

definition trim :: "nat \<Rightarrow> string \<Rightarrow> string" where
  "trim k line_str = take (length line_str - k) line_str"

text \<open>
  \<open>str.strip()\<close> removes the white space at both ends. A character is a code point below
  256 here; those for which \<open>str.isspace\<close> holds are the ASCII white space, the separators
  28 to 31, NEL and the no-break space.
\<close>

definition isspace :: "char \<Rightarrow> bool" where
  "isspace c = (of_char c \<in> {9, 10, 11, 12, 13, 28, 29, 30, 31, 32, 133, 160 :: nat})"

definition strip :: "string \<Rightarrow> string" where
  "strip s = rev (dropWhile isspace (rev (dropWhile isspace s)))"

text \<open>
  \<open>load_jsonl\<close>, from the list \<open>lines\<close> that \<open>readlines()\<close> returns on: a line with at most
  two characters besides the surrounding white space is skipped, any other is parsed by
  \<open>load_json_line\<close> with its default of 20 attempts, and a failure there is raised again as
  a \<open>ValueError\<close> with the line as it was read.
\<close>

fun load_jsonl_lines :: "(string \<Rightarrow> py_error + 'j option) \<Rightarrow> string list \<Rightarrow> py_error + 'j list" where
  "load_jsonl_lines json_loads [] = Inr []"
| "load_jsonl_lines json_loads (line # lines) =
     (if length (strip line) > 2
      then (case load_json_line json_loads line 20 of
              Inl e \<Rightarrow> Inl (ValueError (''Failed to load line: '' @ line))
            | Inr sample \<Rightarrow>
                (case load_jsonl_lines json_loads lines of
                   Inl e \<Rightarrow> Inl e
                 | Inr data \<Rightarrow> Inr (sample # data)))
      else load_jsonl_lines json_loads lines)"


subsection \<open>Strings and lists of Python\<close>

text \<open>
  \<open>xs[i]\<close> raises \<open>IndexError\<close> out of range and counts a negative index from the end;
  \<open>str(i)\<close> is the decimal numeral; \<open>sep.join(xs)\<close>; \<open>s.endswith(suffix)\<close>;
  \<open>os.path.join(a, b)\<close> on POSIX; \<open>s.replace(old, new, count)\<close> replaces the first
  \<open>count\<close> occurrences of a non-empty \<open>old\<close>, found from the left without overlap, and
  \<open>s.replace(old, new)\<close> all of them, which are at most \<open>len(s)\<close>.
\<close>

definition py_index :: "'a list \<Rightarrow> int \<Rightarrow> py_error + 'a" where
  "py_index xs i =
     (if 0 \<le> i \<and> i < int (length xs) then Inr (xs ! nat i)
      else if i < 0 \<and> - int (length xs) \<le> i then Inr (xs ! nat (int (length xs) + i))
      else Inl IndexError)"

fun str_nat :: "nat \<Rightarrow> string" where
  "str_nat n =
     (if n < 10 then [char_of (48 + n)] else str_nat (n div 10) @ [char_of (48 + n mod 10)])"

definition str_int :: "int \<Rightarrow> string" where
  "str_int i = (if i < 0 then CHR ''-'' # str_nat (nat (- i)) else str_nat (nat i))"

fun py_join :: "string \<Rightarrow> string list \<Rightarrow> string" where
  "py_join sep [] = []"
| "py_join sep [x] = x"
| "py_join sep (x # y # ys) = x @ sep @ py_join sep (y # ys)"

definition endswith :: "string \<Rightarrow> string \<Rightarrow> bool" where
  "endswith s suffix = (length suffix \<le> length s \<and> drop (length s - length suffix) s = suffix)"

definition os_path_join :: "string \<Rightarrow> string \<Rightarrow> string" where
  "os_path_join a b =
     (if b \<noteq> [] \<and> hd b = CHR ''/'' then b
      else if a = [] \<or> last a = CHR ''/'' then a @ b
      else a @ ''/'' @ b)"

fun py_replace :: "string \<Rightarrow> string \<Rightarrow> nat \<Rightarrow> string \<Rightarrow> string" where
  "py_replace old new 0 s = s"
| "py_replace old new (Suc n) [] = []"
| "py_replace old new (Suc n) (c # cs) =
     (if old \<noteq> [] \<and> take (length old) (c # cs) = old
      then new @ py_replace old new n (drop (length old) (c # cs))
      else c # py_replace old new (Suc n) cs)"

definition py_replace_all :: "string \<Rightarrow> string \<Rightarrow> string \<Rightarrow> string" where
  "py_replace_all old new s = py_replace old new (length s) s"

subsection \<open>Samples, the environment and the dataset\<close>

text \<open>
  A sample is the dict of one JSON line: the lists under \<open>images\<close> and \<open>texts\<close>, whose
  entries are strings or \<open>None\<close>, and the optional entries \<open>metadata\<close> (a list with one
  entry or \<open>None\<close> per image slot, or a string holding the JSON text of such a list) and
  \<open>valid_image\<close>. Of an entry of the metadata the code only asks whether it is \<open>None\<close>.
\<close>

datatype metadata_value =
    MetaAbsent
  | MetaStr string
  | MetaList "string option list"
  | MetaOther

record sample =
  images :: "string option list"
  texts :: "string option list"
  metadata :: metadata_value
  valid_image :: "bool list option"

text \<open>
  What the module imports or is given, as parameters: the hash, the image reader
  (\<open>Image.open(...).convert('RGB')\<close> on the local path or on the bytes of the remote store,
  which may raise), the transform of \<open>build_transform\<close>, the tokenizer given to the
  constructor (\<open>self.tokenizer\<close>, called with a maximal length and truncation; the result
  is the row of \<open>input_ids\<close>), the three marker strings of \<open>internvl.train.constants\<close>, \<open>json.loads\<close> on a line and on the metadata, the readers
  of the lines and of the whole JSON of a file (with the retries of the remote store), and
  \<open>random.shuffle\<close> on the state \<open>'g\<close> of the generator, which returns a permutation of
  its argument and the next state.

  \<open>getitem\<close> also reads the name \<open>tokenizer\<close>, which is not \<open>self.tokenizer\<close> but a global
  of the module: the module binds it only when it is run as a script, to the tokenizer it
  then gives to the constructor. \<open>global_tokenizer\<close> is that binding, \<open>None\<close> when the
  name is not bound, with the three attributes that \<open>getitem\<close> reads from it.
\<close>

record tokenizer_attributes =
  model_max_length :: int
  convert_tokens_to_ids :: "string \<Rightarrow> int"
  pad_token_id :: int

record ('img, 'px, 'g) env =
  sha256_hex :: "string \<Rightarrow> string"
  open_image :: "string \<Rightarrow> py_error + 'img"
  transform :: "'img \<Rightarrow> 'px"
  tokenizer :: "int \<Rightarrow> string \<Rightarrow> py_error + int list"
  global_tokenizer :: "tokenizer_attributes option"
  IMG_START_TOKEN :: string
  IMG_END_TOKEN :: string
  IMG_CONTEXT_TOKEN :: string
  loads_sample :: "string \<Rightarrow> py_error + sample option"
  loads_metadata :: "string \<Rightarrow> py_error + metadata_value"
  read_lines :: "string \<Rightarrow> py_error + string list"
  read_json :: "string \<Rightarrow> py_error + sample list"
  shuffle_order :: "'g \<Rightarrow> int list \<Rightarrow> int list \<times> 'g"
  shuffle_data :: "'g \<Rightarrow> sample list \<Rightarrow> sample list \<times> 'g"

text \<open>
  The attributes of an \<open>InterleavedDataset\<close> that the modelled methods read or write.
  \<open>shard_id_range\<close> is the dict in the order of its items; \<open>rng\<close> is \<open>self.random\<close> and
  \<open>length'\<close> is \<open>self._length\<close>.
\<close>

record 'g dataset =
  data_path :: string
  image_path :: string
  max_num_images :: int
  train_num_samples :: "int option"
  num_image_token :: int
  shard_mode :: bool
  num_samples_each_shard :: int
  length' :: int
  rng :: 'g
  shard_order :: "int list"
  shard_id_range :: "(string \<times> int \<times> int) list"
  current_shard_name :: string
  current_shard_data :: "sample list"

text \<open>What \<open>getitem\<close> returns: the dict \<open>ret\<close>.\<close>

record 'px tensor_bundle =
  input_ids :: "int list"
  labels :: "int list"
  attention_mask :: "bool list"
  pixel_values :: "'px list"
  image_flags :: "int list"

subsection \<open>Construction\<close>

text \<open>\<open>partition_for_rank\<close>: the items at \<open>range(rank, len(items), world_num)\<close>.\<close>

definition partition_for_rank :: "'a list \<Rightarrow> nat \<Rightarrow> nat \<Rightarrow> py_error + 'a list" where
  "partition_for_rank all_rank_item_list rank world_num =
     (if world_num = 0 then Inl (ValueError ''range() arg 3 must not be zero'')
      else Inr (map (\<lambda>idx. all_rank_item_list ! idx)
                 (filter (\<lambda>idx. rank \<le> idx \<and> (idx - rank) mod world_num = 0)
                    [0..<length all_rank_item_list])))"

definition shard_file :: "int \<Rightarrow> string" where
  "shard_file i = ''data0417_shuffled_shard_'' @ str_int i @ ''.jsonl''"

text \<open>
  The dict comprehension of \<open>__init__\<close>. \<open>shard_order\<close> is a permutation of
  \<open>range(6144)\<close>, so the keys are distinct and the dict has these items in this order.
\<close>

definition shard_table :: "int \<Rightarrow> int list \<Rightarrow> (string \<times> int \<times> int) list" where
  "shard_table num_samples order =
     map (\<lambda>i. (shard_file (order ! i),
                (num_samples * int i, num_samples * (int i + 1) - 1)))
       [0..<length order]"

definition load_jsonl :: "('img, 'px, 'g) env \<Rightarrow> string \<Rightarrow> py_error + sample list" where
  "load_jsonl env jsonl_url_or_path =
     (case read_lines env jsonl_url_or_path of
        Inl e \<Rightarrow> Inl e
      | Inr lines \<Rightarrow> load_jsonl_lines (loads_sample env) lines)"

definition load_ann_file :: "('img, 'px, 'g) env \<Rightarrow> string \<Rightarrow> py_error + sample list" where
  "load_ann_file env file_path =
     (if endswith file_path ''.json'' then read_json env file_path
      else if endswith file_path ''.jsonl'' then load_jsonl env file_path
      else Inl (NotImplementedError (''Unsupported annotation file format: '' @ file_path)))"

text \<open>
  \<open>__init__\<close>, with the arguments it stores and the generator \<open>random.Random(seed)\<close>:
  the shard order, the table of ranges, and the first shard, loaded and shuffled.
\<close>

definition init ::
  "('img, 'px, 'g) env \<Rightarrow> string \<Rightarrow> string \<Rightarrow> int \<Rightarrow> int \<Rightarrow> int option \<Rightarrow> bool \<Rightarrow> 'g
     \<Rightarrow> py_error + 'g dataset" where
  "init env annotation root' num_image_token' max_num_images' train_num_samples'
        dataset_resampled g0 =
     (case partition_for_rank [0..6143] 0 1 of
        Inl e \<Rightarrow> Inl e
      | Inr order0 \<Rightarrow>
          let (order, g1) = (if dataset_resampled then shuffle_order env g0 order0
                             else (order0, g0))
          in (case py_index order 0 of
                Inl e \<Rightarrow> Inl e
              | Inr first \<Rightarrow>
                  (case load_jsonl env (os_path_join annotation (shard_file first)) of
                     Inl e \<Rightarrow> Inl e
                   | Inr data \<Rightarrow>
                       let (data', g2) = shuffle_data env g1 data
                       in Inr \<lparr>data_path = annotation, image_path = root',
                               max_num_images = max_num_images',
                               train_num_samples = train_num_samples',
                               num_image_token = num_image_token',
                               shard_mode = True,
                               num_samples_each_shard = 34190,
                               length' = 34190 * 6144,
                               rng = g2,
                               shard_order = order,
                               shard_id_range = shard_table 34190 order,
                               current_shard_name = shard_file first,
                               current_shard_data = data'\<rparr>)))"

text \<open>
  \<open>__len__\<close>. With \<open>train_num_samples\<close> set it evaluates \<open>self.data_args.world_size\<close>, and
  no method of the class assigns \<open>data_args\<close>.
\<close>

definition len_dataset :: "'g dataset \<Rightarrow> py_error + int" where
  "len_dataset s =
     (case train_num_samples s of
        Some n \<Rightarrow> Inl AttributeError
      | None \<Rightarrow> Inr (length' s))"

text \<open>
  \<open>check_shard_id_range\<close>, the static method that states what a table of ranges has to
  satisfy: the ranges, read as \<open>range(start, end)\<close>, cover \<open>0 .. length - 1\<close>. No method
  calls it.
\<close>

definition check_shard_id_range :: "(string \<times> int \<times> int) list \<Rightarrow> int \<Rightarrow> py_error + unit" where
  "check_shard_id_range table len =
     (let ids = concat (map (\<lambda>(name, start, end). [start..end - 1]) table)
      in if py_slice_to (sort ids) len = [0..len - 1] then Inr () else Inl AssertionError)"

subsection \<open>Looking a sample up\<close>

text \<open>
  \<open>load_data\<close> returns a sample, or \<open>None\<close> when its loop ends without a \<open>return\<close>, or
  raises; in each case the dataset may have changed, so the result comes with the dataset
  after the call. \<open>scan_shards\<close> is the loop over \<open>self.shard_id_range.items()\<close>. A deep
  copy of a value is the value.
\<close>

fun scan_shards ::
  "('img, 'px, 'g) env \<Rightarrow> 'g dataset \<Rightarrow> int \<Rightarrow> (string \<times> int \<times> int) list
     \<Rightarrow> (py_error + sample option) \<times> 'g dataset" where
  "scan_shards env s index [] = (Inr None, s)"
| "scan_shards env s index ((shard_name, start, end) # rest) =
     (if start \<le> index \<and> index < end
      then (let s1 = s\<lparr>current_shard_name := shard_name\<rparr>
            in case load_ann_file env (os_path_join (data_path s) shard_name) of
                 Inl e \<Rightarrow> (Inl e, s1)
               | Inr data \<Rightarrow>
                   (let (data', g') = shuffle_data env (rng s1) data;
                        s2 = s1\<lparr>current_shard_data := data', rng := g'\<rparr>
                    in case py_index data' (index - start) of
                         Inl e \<Rightarrow> (Inl e, s2)
                       | Inr r \<Rightarrow> (Inr (Some r), s2)))
      else scan_shards env s index rest)"

definition load_data ::
  "('img, 'px, 'g) env \<Rightarrow> 'g dataset \<Rightarrow> int \<Rightarrow> (py_error + sample option) \<times> 'g dataset" where
  "load_data env s index =
     (if \<not> shard_mode s then (Inl AssertionError, s)
      else if index \<ge> length' s \<and> length' s = 0 then (Inl ZeroDivisionError, s)
      else let index = (if index \<ge> length' s then index mod length' s else index)
           in case map_of (shard_id_range s) (current_shard_name s) of
                None \<Rightarrow> (Inl KeyError, s)
              | Some (start, end) \<Rightarrow>
                  if start \<le> index \<and> index \<le> end
                  then (case py_index (current_shard_data s) (index - start) of
                          Inl e \<Rightarrow> (Inl e, s)
                        | Inr r \<Rightarrow> (Inr (Some r), s))
                  else scan_shards env s index (shard_id_range s))"

subsection \<open>Assembling a sample\<close>

text \<open>\<open>self.load_image\<close>: any exception of the reader is caught and \<open>None\<close> returned.\<close>

definition load_image :: "('img, 'px, 'g) env \<Rightarrow> string \<Rightarrow> 'img option" where
  "load_image env image_path_or_url =
     (case open_image env image_path_or_url of Inl err \<Rightarrow> None | Inr im \<Rightarrow> Some im)"

text \<open>
  \<open>parse_sample\<close>: the four values it returns, or the \<open>AssertionError\<close> of one of its
  checks, or what \<open>json.loads\<close> raises on a metadata string.
\<close>

definition parse_sample ::
  "('img, 'px, 'g) env \<Rightarrow> sample
     \<Rightarrow> py_error + (string option list \<times> string option list \<times> string option list \<times> bool list)"
  where
  "parse_sample env smp =
     (let imgs = images smp; txts = texts smp;
          md = (case metadata smp of
                  MetaAbsent \<Rightarrow> Inr (MetaList (map (map_option (sha256_hex env)) imgs))
                | MetaStr str \<Rightarrow> loads_metadata env str
                | other \<Rightarrow> Inr other)
      in case md of
           Inl e \<Rightarrow> Inl e
         | Inr (MetaList meta) \<Rightarrow>
             (let valid = (case valid_image smp of
                             None \<Rightarrow> replicate (length (filter (\<lambda>img. img \<noteq> None) imgs)) True
                           | Some v \<Rightarrow> v)
              in if length imgs \<noteq> length txts then Inl AssertionError
                 else if \<not> (length (filter (\<lambda>img. img \<noteq> None) imgs)
                              = length (filter (\<lambda>txt. txt = None) txts)
                            \<and> length (filter (\<lambda>txt. txt = None) txts) = length valid)
                 then Inl AssertionError
                 else if \<exists>(img, imgmeta) \<in> set (zip imgs meta). (img = None) \<noteq> (imgmeta = None)
                 then Inl AssertionError
                 else Inr (imgs, txts, meta, valid))
         | Inr other \<Rightarrow> Inl AssertionError)"

text \<open>
  The loop of \<open>getitem\<close> over \<open>enumerate(zip(images, valid_image))\<close>, on the triple of
  \<open>loaded_images\<close>, \<open>valid_count\<close> and \<open>valid_image\<close>, from position \<open>idx\<close> on.
\<close>

fun load_images ::
  "('img, 'px, 'g) env \<Rightarrow> int \<Rightarrow> nat \<Rightarrow> (string \<times> bool) list \<Rightarrow> 'img list \<times> int \<times> bool list
     \<Rightarrow> 'img list \<times> int \<times> bool list" where
  "load_images env max_images idx [] acc = acc"
| "load_images env max_images idx ((img, valid) # rest) (loaded_images, valid_count, valid_img) =
     (if valid
      then (if valid_count \<ge> max_images
            then load_images env max_images (Suc idx) rest
                   (loaded_images, valid_count, valid_img[idx := False])
            else (case load_image env img of
                    Some im \<Rightarrow> load_images env max_images (Suc idx) rest
                                 (loaded_images @ [im], valid_count + 1, valid_img)
                  | None \<Rightarrow> load_images env max_images (Suc idx) rest
                              (loaded_images, valid_count, valid_img[idx := False])))
      else load_images env max_images (Suc idx) rest (loaded_images, valid_count, valid_img))"

text \<open>
  The loop over \<open>range(len(texts))\<close> that writes \<open><image>\<close> into the empty text slots of
  the valid images, from \<open>image_idx\<close> on.
\<close>

fun mark_images :: "bool list \<Rightarrow> nat \<Rightarrow> string option list \<Rightarrow> py_error + string option list" where
  "mark_images valid image_idx [] = Inr []"
| "mark_images valid image_idx (None # rest) =
     (case py_index valid (int image_idx) of
        Inl e \<Rightarrow> Inl e
      | Inr v \<Rightarrow>
          (case mark_images valid (Suc image_idx) rest of
             Inl e \<Rightarrow> Inl e
           | Inr rest' \<Rightarrow> Inr ((if v then Some ''<image>'' else None) # rest')))"
| "mark_images valid image_idx (Some txt # rest) =
     (case mark_images valid image_idx rest of
        Inl e \<Rightarrow> Inl e
      | Inr rest' \<Rightarrow> Inr (Some txt # rest'))"

text \<open>The text that \<open>getitem\<close> passes to the tokenizer, from the texts and the number of loaded images.\<close>

definition newlines :: string where
  "newlines = [CHR 0x0A, CHR 0x0A]"

definition assemble_text :: "('img, 'px, 'g) env \<Rightarrow> int \<Rightarrow> string option list \<Rightarrow> nat \<Rightarrow> string" where
  "assemble_text env budget txts num_images =
     (let text = py_join newlines (concat (map (\<lambda>t. case t of None \<Rightarrow> [] | Some s \<Rightarrow> if s = [] then [] else [s]) txts));
          text = py_replace_all (''<image>'' @ newlines) ''<image>'' text;
          text = py_replace_all (newlines @ ''<image>'') ''<image>'' text;
          image_tokens = IMG_START_TOKEN env
                           @ concat (replicate (nat budget) (IMG_CONTEXT_TOKEN env))
                           @ IMG_END_TOKEN env
      in py_replace ''<image>'' image_tokens num_images text)"

text \<open>The labels: the token ids, with the ids of the three markers replaced by \<open>-100\<close>.\<close>

definition mask_labels ::
  "('img, 'px, 'g) env \<Rightarrow> tokenizer_attributes \<Rightarrow> int list \<Rightarrow> int list" where
  "mask_labels env tok ids =
     (let image_start_token_id = convert_tokens_to_ids tok (IMG_START_TOKEN env);
          image_end_token_id = convert_tokens_to_ids tok (IMG_END_TOKEN env);
          image_context_token_id = convert_tokens_to_ids tok (IMG_CONTEXT_TOKEN env);
          lab = map (\<lambda>t. if t = image_start_token_id then - 100 else t) ids;
          lab = map (\<lambda>t. if t = image_end_token_id then - 100 else t) lab
      in map (\<lambda>t. if t = image_context_token_id then - 100 else t) lab)"

text \<open>
  \<open>getitem\<close> after \<open>load_data\<close>: \<open>assemble\<close> takes what \<open>load_data\<close> returned, and
  subscripting \<open>None\<close> raises \<open>TypeError\<close>. The first read of the global \<open>tokenizer\<close> is
  in the arguments of the call of \<open>self.tokenizer\<close>, and raises \<open>NameError\<close> when the name
  is not bound.
\<close>

definition assemble ::
  "('img, 'px, 'g) env \<Rightarrow> 'g dataset \<Rightarrow> sample option \<Rightarrow> py_error + 'px tensor_bundle" where
  "assemble env s loaded =
     (case loaded of
        None \<Rightarrow> Inl TypeError
      | Some smp \<Rightarrow>
          (case parse_sample env smp of
             Inl e \<Rightarrow> Inl e
           | Inr (imgs, txts, meta, valid) \<Rightarrow>
               (let paths = concat (map (\<lambda>(img, m). case img of
                                                     None \<Rightarrow> []
                                                   | Some url \<Rightarrow> [os_path_join (image_path s)
                                                                    (sha256_hex env url)])
                                      (zip imgs meta));
                    (loaded_images, valid_count, valid) =
                       load_images env (max_num_images s) 0 (zip paths valid) ([], 0, valid)
                in if \<not> (length loaded_images > 0 \<and> length (filter id valid) > 0)
                   then Inl AssertionError
                   else (case mark_images valid 0 txts of
                           Inl e \<Rightarrow> Inl e
                         | Inr txts \<Rightarrow>
                             (case global_tokenizer env of
                                None \<Rightarrow> Inl NameError
                              | Some tok \<Rightarrow>
                                  (case tokenizer env (model_max_length tok)
                                          (assemble_text env (num_image_token s) txts
                                             (length loaded_images)) of
                                     Inl e \<Rightarrow> Inl e
                                   | Inr ids \<Rightarrow>
                                       (let pixels = map (transform env) loaded_images;
                                            num_patches = length pixels
                                        in if int (length (filter
                                                     (\<lambda>t. t = convert_tokens_to_ids tok
                                                                 (IMG_CONTEXT_TOKEN env)) ids))
                                              \<noteq> num_image_token s * int (length loaded_images)
                                           then Inl AssertionError
                                           else Inr \<lparr>input_ids = ids,
                                                    labels = mask_labels env tok ids,
                                                    attention_mask =
                                                      map (\<lambda>t. t \<noteq> pad_token_id tok) ids,
                                                    pixel_values = pixels,
                                                    image_flags = replicate num_patches 1\<rparr>)))))))"

definition getitem ::
  "('img, 'px, 'g) env \<Rightarrow> 'g dataset \<Rightarrow> int \<Rightarrow> (py_error + 'px tensor_bundle) \<times> 'g dataset" where
  "getitem env s index =
     (case load_data env s index of
        (Inl e, s') \<Rightarrow> (Inl e, s')
      | (Inr loaded, s') \<Rightarrow> (assemble env s' loaded, s'))"

text \<open>
  \<open>__getitem__\<close>: the loop \<open>while True\<close> has no bound, so the function is partial:
  \<open>None\<close> is the loop that never ends, \<open>Some\<close> holds the item returned or the exception
  that leaves \<open>__getitem__\<close>, and the dataset after the call. An exception of \<open>getitem\<close> is
  caught; one raised in the handler, by \<open>len(self)\<close> or by \<open>%\<close>, is not.
\<close>

partial_function (option) getitem_retry ::
  "('img, 'px, 'g) env \<Rightarrow> 'g dataset \<Rightarrow> int
     \<Rightarrow> ((py_error + 'px tensor_bundle) \<times> 'g dataset) option" where
  "getitem_retry env s index =
     (case getitem env s index of
        (Inr item, s') \<Rightarrow> Some (Inr item, s')
      | (Inl err, s') \<Rightarrow>
          (case len_dataset s' of
             Inl e \<Rightarrow> Some (Inl e, s')
           | Inr n \<Rightarrow>
               if n = 0 then Some (Inl ZeroDivisionError, s')
               else getitem_retry env s' ((index + 1) mod n)))"

declare getitem_retry.simps [code]

text \<open>The same loop, stopped after \<open>k\<close> calls of \<open>getitem\<close>: \<open>None\<close> when it has not ended by then.\<close>

fun getitem_fuel ::
  "nat \<Rightarrow> ('img, 'px, 'g) env \<Rightarrow> 'g dataset \<Rightarrow> int
     \<Rightarrow> ((py_error + 'px tensor_bundle) \<times> 'g dataset) option" where
  "getitem_fuel 0 env s index = None"
| "getitem_fuel (Suc k) env s index =
     (case getitem env s index of
        (Inr item, s') \<Rightarrow> Some (Inr item, s')
      | (Inl err, s') \<Rightarrow>
          (case len_dataset s' of
             Inl e \<Rightarrow> Some (Inl e, s')
           | Inr n \<Rightarrow>
               if n = 0 then Some (Inl ZeroDivisionError, s')
               else getitem_fuel k env s' ((index + 1) mod n)))"

subsection \<open>A small environment for examples\<close>

text \<open>
  Images and pixel values are the path of the image, the generator has one state and
  shuffles nothing, no file has lines, the only image that can be read is \<open>root/A\<close>, and the
  tokenizer gives the three markers the ids 1, 2 and 3 and any other character its code
  plus 10, and keeps the first \<open>max_length\<close> ids; the module is run as a script.
\<close>

fun toy_tokenize :: "string \<Rightarrow> int list" where
  "toy_tokenize [] = []"
| "toy_tokenize (c # cs) =
     (if take 5 (c # cs) = ''<img>'' then 1 # toy_tokenize (drop 5 (c # cs))
      else if take 6 (c # cs) = ''</img>'' then 2 # toy_tokenize (drop 6 (c # cs))
      else if take 13 (c # cs) = ''<IMG_CONTEXT>'' then 3 # toy_tokenize (drop 13 (c # cs))
      else (10 + int (of_char c)) # toy_tokenize cs)"

definition toy_ids :: "string \<Rightarrow> int" where
  "toy_ids tok =
     (if tok = ''<img>'' then 1 else if tok = ''</img>'' then 2
      else if tok = ''<IMG_CONTEXT>'' then 3 else 0)"

definition toy_env :: "(string, string, unit) env" where
  "toy_env =
     \<lparr>sha256_hex = (\<lambda>url. url),
      open_image = (\<lambda>path. if path = ''root/A'' then Inr path else Inl OSError),
      transform = (\<lambda>im. im),
      tokenizer = (\<lambda>max_length text. Inr (take (nat max_length) (toy_tokenize text))),
      global_tokenizer = Some \<lparr>model_max_length = 2048, convert_tokens_to_ids = toy_ids,
                                pad_token_id = 0\<rparr>,
      IMG_START_TOKEN = ''<img>'',
      IMG_END_TOKEN = ''</img>'',
      IMG_CONTEXT_TOKEN = ''<IMG_CONTEXT>'',
      loads_sample = (\<lambda>line. Inl JSONDecodeError),
      loads_metadata = (\<lambda>str. Inl JSONDecodeError),
      read_lines = (\<lambda>path. Inr []),
      read_json = (\<lambda>path. Inl OSError),
      shuffle_order = (\<lambda>g xs. (xs, g)),
      shuffle_data = (\<lambda>g xs. (xs, g))\<rparr>"

text \<open>The record of the assembly example, and a dataset of two shards of two samples.\<close>

definition example_sample :: "string \<Rightarrow> string \<Rightarrow> sample" where
  "example_sample A m =
     \<lparr>images = [Some A, None], texts = [None, Some ''caption''],
      metadata = MetaList [Some m, None], valid_image = Some [True]\<rparr>"

definition toy_dataset :: "unit dataset" where
  "toy_dataset =
     \<lparr>data_path = ''ann'', image_path = ''root'', max_num_images = 6,
      train_num_samples = None, num_image_token = 2, shard_mode = True,
      num_samples_each_shard = 2, length' = 4, rng = (),
      shard_order = [1, 0],
      shard_id_range = shard_table 2 [1, 0],
      current_shard_name = shard_file 1,
      current_shard_data = [example_sample ''A'' ''m'', example_sample ''B'' ''m'']\<rparr>"

section \<open>Properties of the inference sampler\<close>

lemma length_shard_sizes: "length (shard_sizes t w) = nat w"
  by (simp add: shard_sizes_def)

lemma nth_shard_sizes:
  "n < nat w \<Longrightarrow> shard_sizes t w ! n = t div w + (if int n < t mod w then 1 else 0)"
  by (simp add: shard_sizes_def)

lemma prefix_sum_shard_sizes:
  "0 < w \<Longrightarrow> n \<le> nat w \<Longrightarrow>
   sum_list (take n (shard_sizes t w)) = int n * (t div w) + min (int n) (t mod w)"
proof (induction n)
  case 0
  then show ?case by simp
next
  case (Suc n)
  then have n: "n < nat w" by simp
  have "take (Suc n) (shard_sizes t w) = take n (shard_sizes t w) @ [shard_sizes t w ! n]"
    using n by (simp add: take_Suc_conv_app_nth length_shard_sizes)
  then show ?case using Suc n by (simp add: nth_shard_sizes algebra_simps min_def)
qed

lemma get_local_indices_closed:
  assumes "0 < w" "0 \<le> r" "r < w" "0 \<le> t"
  shows "get_local_indices t w r =
           Inr (r * (t div w) + min r (t mod w), (r + 1) * (t div w) + min (r + 1) (t mod w))"
proof -
  have b: "sum_list (py_slice_to (shard_sizes t w) r) = r * (t div w) + min r (t mod w)"
    using assms prefix_sum_shard_sizes [of w "nat r" t]
    by (simp add: py_slice_to_def py_bound_def length_shard_sizes)
  have e: "sum_list (py_slice_to (shard_sizes t w) (r + 1))
             = (r + 1) * (t div w) + min (r + 1) (t mod w)"
    using assms prefix_sum_shard_sizes [of w "nat (r + 1)" t]
    by (simp add: py_slice_to_def py_bound_def length_shard_sizes)
  have "(r + 1) * (t div w) \<le> w * (t div w)"
    using assms by (intro mult_right_mono) (simp_all add: pos_imp_zdiv_nonneg_iff)
  moreover have "min (r + 1) (t mod w) \<le> t mod w" by simp
  moreover have "w * (t div w) + t mod w = t" by simp
  ultimately have "(r + 1) * (t div w) + min (r + 1) (t mod w) \<le> t" by linarith
  then show ?thesis using assms b e by (simp add: get_local_indices_def Let_def)
qed

text \<open>
  Claim C1. For \<open>total_size > 0\<close> and \<open>world_size > 0\<close>, the ranges of the ranks
  \<open>0 .. world_size - 1\<close> are contiguous (rank 0 begins at 0, each rank begins where the
  previous one ends, the last one ends at \<open>total_size\<close>), pairwise disjoint, their union
  is \<open>[0, total_size)\<close>, rank \<open>r\<close> has \<open>total_size div world_size\<close> elements and one more
  when \<open>r < total_size mod world_size\<close>, so any two sizes differ by at most 1.
\<close>

theorem get_local_indices_partition:
  assumes "0 < total_size" and "0 < world_size"
  shows "(\<forall>r\<in>{0..<world_size}. \<exists>b e.
            get_local_indices total_size world_size r = Inr (b, e) \<and> b \<le> e \<and>
            e - b = total_size div world_size + (if r < total_size mod world_size then 1 else 0) \<and>
            (r = 0 \<longrightarrow> b = 0) \<and> (r = world_size - 1 \<longrightarrow> e = total_size) \<and>
            (r + 1 < world_size \<longrightarrow>
               (\<exists>e'. get_local_indices total_size world_size (r + 1) = Inr (e, e')))) \<and>
         (\<Union>r\<in>{0..<world_size}. local_indices total_size world_size r) = {0..<total_size} \<and>
         (\<forall>r\<in>{0..<world_size}. \<forall>r'\<in>{0..<world_size}. r \<noteq> r' \<longrightarrow>
            local_indices total_size world_size r \<inter> local_indices total_size world_size r' = {}) \<and>
         (\<forall>r\<in>{0..<world_size}. \<forall>r'\<in>{0..<world_size}.
            \<bar>local_size total_size world_size r - local_size total_size world_size r'\<bar> \<le> 1)"
proof -
  define q where "q = total_size div world_size"
  define l where "l = total_size mod world_size"
  define B where "B r = r * q + min r l" for r :: int
  have q0: "0 \<le> q" using assms by (simp add: q_def pos_imp_zdiv_nonneg_iff)
  have l0: "0 \<le> l" and lw: "l < world_size" using assms by (simp_all add: l_def)
  have gli: "get_local_indices total_size world_size r = Inr (B r, B (r + 1))"
    if "0 \<le> r" "r < world_size" for r
    using get_local_indices_closed [of world_size r total_size] that assms
    by (simp add: B_def q_def l_def)
  have step: "B (r + 1) - B r = q + (if r < l then 1 else 0)" for r
    by (simp add: B_def algebra_simps min_def)
  have step_le: "B r \<le> B (r + 1)" for r
    using step [of r] q0 by (simp split: if_splits)
  have mono: "B r \<le> B r'" if "r \<le> r'" for r r'
  proof -
    have "r * q \<le> r' * q" using that q0 by (rule mult_right_mono)
    moreover have "min r l \<le> min r' l" using that by simp
    ultimately show ?thesis by (simp add: B_def)
  qed
  have B0: "B 0 = 0" using l0 by (simp add: B_def)
  have Bw: "B world_size = total_size"
    using lw by (simp add: B_def q_def l_def min_def)
  have li: "local_indices total_size world_size r = {B r..<B (r + 1)}"
    if "0 \<le> r" "r < world_size" for r
    using gli [OF that] by (simp add: local_indices_def)
  have ls: "local_size total_size world_size r = q + (if r < l then 1 else 0)"
    if "0 \<le> r" "r < world_size" for r
    using gli [OF that] step [of r] step_le [of r] by (simp add: local_size_def)
  have un: "(\<Union>r\<in>{0..<int k}. {B r..<B (r + 1)}) = {0..<B (int k)}" for k
  proof (induction k)
    case 0
    then show ?case by (simp add: B0)
  next
    case (Suc k)
    have "{0..<int (Suc k)} = insert (int k) {0..<int k}" by auto
    then have "(\<Union>r\<in>{0..<int (Suc k)}. {B r..<B (r + 1)})
                 = {B (int k)..<B (int k + 1)} \<union> {0..<B (int k)}"
      using Suc.IH by simp
    also have "\<dots> = {0..<B (int k + 1)}"
      using mono [of 0 "int k"] step_le [of "int k"] B0 by auto
    finally show ?case by (simp add: add.commute)
  qed
  have part1: "\<forall>r\<in>{0..<world_size}. \<exists>b e.
            get_local_indices total_size world_size r = Inr (b, e) \<and> b \<le> e \<and>
            e - b = total_size div world_size + (if r < total_size mod world_size then 1 else 0) \<and>
            (r = 0 \<longrightarrow> b = 0) \<and> (r = world_size - 1 \<longrightarrow> e = total_size) \<and>
            (r + 1 < world_size \<longrightarrow>
               (\<exists>e'. get_local_indices total_size world_size (r + 1) = Inr (e, e')))"
  proof
    fix r assume "r \<in> {0..<world_size}"
    then have r: "0 \<le> r" "r < world_size" by simp_all
    have "r + 1 < world_size \<longrightarrow>
            get_local_indices total_size world_size (r + 1) = Inr (B (r + 1), B (r + 1 + 1))"
      using gli [of "r + 1"] r by simp
    then show "\<exists>b e.
            get_local_indices total_size world_size r = Inr (b, e) \<and> b \<le> e \<and>
            e - b = total_size div world_size + (if r < total_size mod world_size then 1 else 0) \<and>
            (r = 0 \<longrightarrow> b = 0) \<and> (r = world_size - 1 \<longrightarrow> e = total_size) \<and>
            (r + 1 < world_size \<longrightarrow>
               (\<exists>e'. get_local_indices total_size world_size (r + 1) = Inr (e, e')))"
      using gli [OF r] step [of r] step_le [of r] B0 Bw
      by (auto simp: q_def l_def)
  qed
  have "(\<Union>r\<in>{0..<world_size}. local_indices total_size world_size r)
          = (\<Union>r\<in>{0..<world_size}. {B r..<B (r + 1)})"
    using li by simp
  also have "\<dots> = {0..<total_size}"
    using un [of "nat world_size"] assms Bw by simp
  finally have part2:
    "(\<Union>r\<in>{0..<world_size}. local_indices total_size world_size r) = {0..<total_size}" .
  have disj: "local_indices total_size world_size r \<inter> local_indices total_size world_size r' = {}"
    if "0 \<le> r" "r < r'" "r' < world_size" for r r'
  proof -
    have "B (r + 1) \<le> B r'" using that by (intro mono) simp
    then show ?thesis using li [of r] li [of r'] that by auto
  qed
  have part3: "\<forall>r\<in>{0..<world_size}. \<forall>r'\<in>{0..<world_size}. r \<noteq> r' \<longrightarrow>
            local_indices total_size world_size r \<inter> local_indices total_size world_size r' = {}"
  proof (intro ballI impI)
    fix r r' assume "r \<in> {0..<world_size}" "r' \<in> {0..<world_size}" "r \<noteq> r'"
    then consider "0 \<le> r \<and> r < r' \<and> r' < world_size" | "0 \<le> r' \<and> r' < r \<and> r < world_size"
      by fastforce
    then show "local_indices total_size world_size r \<inter> local_indices total_size world_size r' = {}"
    proof cases
      case 1 then show ?thesis using disj [of r r'] by simp
    next
      case 2 then show ?thesis using disj [of r' r] by (simp add: Int_commute)
    qed
  qed
  have part4: "\<forall>r\<in>{0..<world_size}. \<forall>r'\<in>{0..<world_size}.
            \<bar>local_size total_size world_size r - local_size total_size world_size r'\<bar> \<le> 1"
    using ls by simp
  from part1 part2 part3 part4 show ?thesis by blast
qed

theorem get_local_indices_partition_witness:
  "(0::int) < 10 \<and> (0::int) < 3 \<and>
   get_local_indices 10 3 0 = Inr (0, 4) \<and> get_local_indices 10 3 1 = Inr (4, 7) \<and>
   get_local_indices 10 3 2 = Inr (7, 10) \<and>
   (\<Union>r\<in>{0..<3}. local_indices 10 3 r) = {0..<10}"
  using get_local_indices_partition [of 10 3]
  by (simp add: get_local_indices_def shard_sizes_def py_slice_to_def py_bound_def upto.simps)

section \<open>Properties of the supervised dataset's rank slice\<close>

text \<open>
  Claim C10. With \<open>lines_per_rank = total_lines div world_size\<close>, a rank keeps exactly the
  lines at positions \<open>[lines_per_rank * rank, lines_per_rank * (rank + 1))\<close> of the file,
  \<open>__len__\<close> is \<open>lines_per_rank * world_size\<close>, every line \<open>__getitem__\<close> reads is one of
  the slice, every position of a slice is below \<open>lines_per_rank * world_size\<close>, and the
  \<open>total_lines mod world_size\<close> positions from there on belong to no rank.
\<close>

theorem lazy_init_slices:
  assumes "0 < world_size" and "0 \<le> rank" and "rank < world_size"
  shows "\<exists>raw. lazy_init lines world_size rank = Inr raw \<and>
           int (length raw) = int (length lines) div world_size \<and>
           lazy_len raw world_size = (int (length lines) div world_size) * world_size \<and>
           (\<forall>k < length raw.
              raw ! k = lines ! (nat (int (length lines) div world_size * rank) + k) \<and>
              int (length lines) div world_size * rank + int k
                < int (length lines) div world_size * world_size) \<and>
           (\<forall>i. raw \<noteq> [] \<longrightarrow> (\<exists>k < length raw. lazy_line raw i = Inr (raw ! k))) \<and>
           int (length lines) - int (length lines) div world_size * world_size
             = int (length lines) mod world_size"
proof -
  define q where "q = int (length lines) div world_size"
  define raw where "raw = py_slice lines (q * rank) (q * rank + q)"
  have q0: "0 \<le> q" using assms by (simp add: q_def pos_imp_zdiv_nonneg_iff)
  have "q * (rank + 1) \<le> q * world_size" using assms q0 by (intro mult_left_mono) simp_all
  moreover have "q * world_size \<le> int (length lines)"
  proof -
    have "q * world_size + int (length lines) mod world_size = int (length lines)"
      by (simp add: q_def)
    moreover have "0 \<le> int (length lines) mod world_size" using assms by simp
    ultimately show ?thesis by linarith
  qed
  ultimately have hi: "q * rank + q \<le> int (length lines)" by (simp add: algebra_simps)
  have lo0: "0 \<le> q * rank" using q0 assms by simp
  have n1: "nat (q * rank) + nat q \<le> length lines" using hi lo0 q0 by linarith
  have b1: "py_bound (length lines) (q * rank) = nat (q * rank)"
    using n1 lo0 by (simp add: py_bound_def)
  have b2: "py_bound (length lines) (q * rank + q) = nat (q * rank) + nat q"
    using n1 lo0 q0 by (simp add: py_bound_def nat_add_distrib)
  have raw_eq: "raw = take (nat q) (drop (nat (q * rank)) lines)"
    by (simp add: raw_def py_slice_def Let_def b1 b2)
  have len: "int (length raw) = q" using n1 q0 by (simp add: raw_eq)
  have init: "lazy_init lines world_size rank = Inr raw"
    using assms by (simp add: lazy_init_def Let_def raw_def q_def)
  have nth: "raw ! k = lines ! (nat (q * rank) + k)" if "k < length raw" for k
    using that n1 by (simp add: raw_eq)
  have bound: "q * rank + int k < q * world_size" if "k < length raw" for k
  proof -
    have "int k < q" using that len by simp
    then have "q * rank + int k < q * (rank + 1)" by (simp add: algebra_simps)
    also have "\<dots> \<le> q * world_size" using assms q0 by (intro mult_left_mono) simp_all
    finally show ?thesis .
  qed
  have line: "\<exists>k < length raw. lazy_line raw i = Inr (raw ! k)" if "raw \<noteq> []" for i
  proof -
    have "0 < int (length raw)" using that by simp
    then have "nat (i mod int (length raw)) < length raw"
      by (simp add: nat_less_iff)
    then show ?thesis using that by (auto simp: lazy_line_def)
  qed
  have tail: "int (length lines) - q * world_size = int (length lines) mod world_size"
    by (simp add: q_def algebra_simps minus_div_mult_eq_mod)
  show ?thesis
    using init len nth bound line tail by (auto simp: lazy_len_def q_def)
qed

theorem lazy_init_slices_witness:
  "(0::int) < 3 \<and> (0::int) \<le> 2 \<and> (2::int) < 3 \<and>
   (\<exists>raw. lazy_init ''abcdefghij'' 3 2 = Inr raw \<and>
      int (length raw) = int (length ''abcdefghij'') div 3 \<and>
      lazy_len raw 3 = (int (length ''abcdefghij'') div 3) * 3 \<and>
      (\<forall>k < length raw.
         raw ! k = ''abcdefghij'' ! (nat (int (length ''abcdefghij'') div 3 * 2) + k) \<and>
         int (length ''abcdefghij'') div 3 * 2 + int k < int (length ''abcdefghij'') div 3 * 3) \<and>
      (\<forall>i. raw \<noteq> [] \<longrightarrow> (\<exists>k < length raw. lazy_line raw i = Inr (raw ! k))) \<and>
      int (length ''abcdefghij'') - int (length ''abcdefghij'') div 3 * 3
        = int (length ''abcdefghij'') mod 3)"
proof -
  have h: "(0::int) < 3" "(0::int) \<le> 2" "(2::int) < 3" by simp_all
  from lazy_init_slices [OF h, of "''abcdefghij''"] h show ?thesis by blast
qed

section \<open>Properties of the tiling\<close>

lemma set_target_ratios_gen:
  "set (target_ratios_gen min_num max_num)
     = {(i, j). 1 \<le> i \<and> 1 \<le> j \<and> min_num \<le> i * j \<and> i * j \<le> max_num}"
proof (intro set_eqI iffI)
  fix r assume "r \<in> set (target_ratios_gen min_num max_num)"
  then show "r \<in> {(i, j). 1 \<le> i \<and> 1 \<le> j \<and> min_num \<le> i * j \<and> i * j \<le> max_num}"
    by (auto simp: target_ratios_gen_def)
next
  fix r assume r: "r \<in> {(i, j). 1 \<le> i \<and> 1 \<le> j \<and> min_num \<le> i * j \<and> i * j \<le> max_num}"
  obtain i j where ij: "r = (i, j)" by (cases r)
  from r ij have h: "1 \<le> i" "1 \<le> j" "min_num \<le> i * j" "i * j \<le> max_num" by simp_all
  have "i * 1 \<le> i * j" using h by (intro mult_left_mono) simp_all
  moreover have "1 * j \<le> i * j" using h by (intro mult_right_mono) simp_all
  ultimately have "i \<le> i * j" "j \<le> i * j" by simp_all
  then have "\<exists>n. min_num \<le> n \<and> n \<le> max_num \<and> i \<le> n \<and> j \<le> n"
    using h by blast
  then show "r \<in> set (target_ratios_gen min_num max_num)"
    using h ij by (auto simp: target_ratios_gen_def)
qed

lemma closest_loop_Cons:
  "snd r \<noteq> 0 \<Longrightarrow>
   closest_loop rnd a (r # rs) (bd, b) =
     (if (case bd of None \<Rightarrow> True | Some d \<Rightarrow> ratio_diff rnd a r < d)
      then closest_loop rnd a rs (Some (ratio_diff rnd a r), r)
      else closest_loop rnd a rs (bd, b))"
  by (simp add: py_truediv_def ratio_diff_def Let_def split: option.splits)

lemma closest_loop_zero:
  "snd r = 0 \<Longrightarrow> closest_loop rnd a (r # rs) (bd, b) = Inl ZeroDivisionError"
  by (simp add: py_truediv_def)

lemma closest_loop_returns:
  "\<forall>r\<in>set rs. snd r \<noteq> 0 \<Longrightarrow> \<exists>bd' b'. closest_loop rnd a rs (bd, b) = Inr (bd', b')"
proof (induction rs arbitrary: bd b)
  case Nil
  then show ?case by simp
next
  case (Cons r rs)
  from Cons.prems have nz: "snd r \<noteq> 0" and rest: "\<forall>r\<in>set rs. snd r \<noteq> 0" by simp_all
  show ?case using Cons.IH [OF rest] by (simp add: closest_loop_Cons [OF nz] del: closest_loop.simps)
qed

lemma closest_loop_min:
  "closest_loop rnd a rs (bd, b) = Inr (bd', b') \<Longrightarrow>
     (\<forall>r\<in>set rs. \<exists>d. bd' = Some d \<and> d \<le> ratio_diff rnd a r) \<and>
     (\<forall>d0. bd = Some d0 \<longrightarrow> (\<exists>d. bd' = Some d \<and> d \<le> d0)) \<and>
     ((bd' = bd \<and> b' = b) \<or> (\<exists>r\<in>set rs. bd' = Some (ratio_diff rnd a r) \<and> b' = r))"
proof (induction rs arbitrary: bd b)
  case Nil
  then show ?case by simp
next
  case (Cons r rs)
  have nz: "snd r \<noteq> 0"
  proof
    assume "snd r = 0"
    from closest_loop_zero [OF this] Cons.prems show False by simp
  qed
  let ?d = "ratio_diff rnd a r"
  show ?case
  proof (cases "case bd of None \<Rightarrow> True | Some d \<Rightarrow> ?d < d")
    case True
    with Cons.prems have "closest_loop rnd a rs (Some ?d, r) = Inr (bd', b')"
      by (simp add: closest_loop_Cons [OF nz] del: closest_loop.simps)
    from Cons.IH [OF this] True show ?thesis
      by (fastforce split: option.splits)
  next
    case False
    with Cons.prems have "closest_loop rnd a rs (bd, b) = Inr (bd', b')"
      by (simp add: closest_loop_Cons [OF nz] del: closest_loop.simps)
    from Cons.IH [OF this] False show ?thesis
      by (fastforce split: option.splits)
  qed
qed

lemma closest_loop_member:
  assumes "closest_loop rnd a rs (bd, b) = Inr (bd', b')"
  shows "b' = b \<or> b' \<in> set rs"
  using closest_loop_min [OF assms] by blast

lemma special_cases_member:
  "special_cases image_size area b = b \<or> special_cases image_size area b = (1, 1)
     \<or> special_cases image_size area b = (2, 2)"
  by (simp add: special_cases_def Let_def)

lemma best_grid_loop:
  assumes "h \<noteq> 0" and "set_iteration set_order"
  shows "\<exists>bd b. closest_loop rnd (rnd (of_int w / of_int h))
                  (set_order (target_ratios_gen mn mx)) (None, (1, 1)) = Inr (bd, b) \<and>
               best_grid rnd set_order image_size w h mn mx
                 = Inr (special_cases image_size (w * h) b)"
proof -
  have "\<forall>r\<in>set (set_order (target_ratios_gen mn mx)). snd r \<noteq> 0"
    using assms(2) by (auto simp: set_iteration_def set_target_ratios_gen)
  from closest_loop_returns [OF this]
  obtain bd b where "closest_loop rnd (rnd (of_int w / of_int h))
                  (set_order (target_ratios_gen mn mx)) (None, (1, 1)) = Inr (bd, b)"
    by blast
  then show ?thesis using assms(1)
    by (simp add: best_grid_def py_truediv_def find_closest_aspect_ratio_def Let_def)
qed

lemma best_grid_candidates:
  assumes "orig_height \<noteq> 0" and "set_iteration set_order"
  shows "\<exists>cols rows.
           best_grid rnd set_order image_size orig_width orig_height min_num max_num
             = Inr (cols, rows) \<and>
           1 \<le> cols \<and> 1 \<le> rows \<and>
           ((cols, rows) \<in> set (target_ratios_gen min_num max_num)
              \<or> (cols, rows) = (1, 1) \<or> (cols, rows) = (2, 2))"
proof -
  let ?gen = "target_ratios_gen min_num max_num"
  from best_grid_loop [OF assms, of rnd orig_width min_num max_num image_size]
  obtain bd b where
    loop: "closest_loop rnd (rnd (of_int orig_width / of_int orig_height))
             (set_order ?gen) (None, (1, 1)) = Inr (bd, b)" and
    res: "best_grid rnd set_order image_size orig_width orig_height min_num max_num
             = Inr (special_cases image_size (orig_width * orig_height) b)"
    by blast
  define g where "g = special_cases image_size (orig_width * orig_height) b"
  have "b = (1, 1) \<or> b \<in> set ?gen"
    using closest_loop_member [OF loop] assms(2) by (simp add: set_iteration_def)
  then have mem: "g \<in> set ?gen \<or> g = (1, 1) \<or> g = (2, 2)"
    using special_cases_member [of image_size "orig_width * orig_height" b]
    unfolding g_def by metis
  obtain cols rows where g: "g = (cols, rows)" by (cases g)
  have pos: "1 \<le> cols \<and> 1 \<le> rows"
    using mem by (auto simp: g set_target_ratios_gen)
  show ?thesis
    using res mem pos unfolding g_def [symmetric] g by blast
qed

text \<open>
  Claim C5 (amended). For every image size with a non-zero height, every tile size and every
  \<open>min_num\<close>, \<open>max_num\<close>, \<open>best_grid\<close> returns a grid of positive sides that is one of the
  enumerated candidates, and then has \<open>min_num \<le> cols * rows \<le> max_num\<close>, or is \<open>(1, 1)\<close>
  or \<open>(2, 2)\<close>, put there by a special case; so the bounds hold after the special cases
  whenever \<open>min_num \<le> 1\<close> and \<open>4 \<le> max_num\<close>, as for the defaults 1 and 6.
\<close>

theorem best_grid_bounds:
  assumes "orig_height \<noteq> 0" and "set_iteration set_order"
  shows "\<exists>cols rows.
           best_grid rnd set_order image_size orig_width orig_height min_num max_num
             = Inr (cols, rows) \<and>
           1 \<le> cols \<and> 1 \<le> rows \<and>
           ((cols, rows) \<in> set (target_ratios_gen min_num max_num)
              \<or> (cols, rows) = (1, 1) \<or> (cols, rows) = (2, 2)) \<and>
           ((cols, rows) \<in> set (target_ratios_gen min_num max_num)
              \<longrightarrow> min_num \<le> cols * rows \<and> cols * rows \<le> max_num) \<and>
           (min_num \<le> 1 \<and> 4 \<le> max_num
              \<longrightarrow> min_num \<le> cols * rows \<and> cols * rows \<le> max_num)"
proof -
  let ?gen = "target_ratios_gen min_num max_num"
  from best_grid_candidates [OF assms, of rnd image_size orig_width min_num max_num]
  obtain cols rows where
    res: "best_grid rnd set_order image_size orig_width orig_height min_num max_num
            = Inr (cols, rows)" and
    pos: "1 \<le> cols \<and> 1 \<le> rows" and
    mem: "(cols, rows) \<in> set ?gen \<or> (cols, rows) = (1, 1) \<or> (cols, rows) = (2, 2)"
    by blast
  have inside: "(cols, rows) \<in> set ?gen \<longrightarrow> min_num \<le> cols * rows \<and> cols * rows \<le> max_num"
    by (simp add: set_target_ratios_gen)
  have dflt: "min_num \<le> 1 \<and> 4 \<le> max_num \<longrightarrow> min_num \<le> cols * rows \<and> cols * rows \<le> max_num"
    using mem inside by auto
  show ?thesis
    using res mem pos inside dflt by blast
qed

lemma set_iteration_remdups: "set_iteration remdups"
  by (simp add: set_iteration_def)

lemma set_iteration_reversed_order: "set_iteration reversed_order"
  by (simp add: set_iteration_def reversed_order_def)

text \<open>
  The bounds as claimed for all \<open>min_num\<close>, \<open>max_num\<close> fail: with \<open>min_num = max_num = 1\<close>
  the only candidate is \<open>(1, 1)\<close>, and for an image of 448 by 448 with tiles of 448 the
  second special case replaces it by \<open>(2, 2)\<close>, four tiles.
\<close>

theorem best_grid_bounds_counterexample:
  "best_grid id remdups 448 448 448 1 1 = Inr (2, 2) \<and> \<not> (2 * 2 \<le> (1::int))"
  by (simp add: best_grid_def py_truediv_def find_closest_aspect_ratio_def special_cases_def
      target_ratios_gen_def upto.simps Let_def)

theorem best_grid_bounds_witness:
  "(600::int) \<noteq> 0 \<and> set_iteration remdups \<and>
   (\<exists>cols rows. best_grid id remdups 448 800 600 1 6 = Inr (cols, rows) \<and>
      1 \<le> cols \<and> 1 \<le> rows \<and>
      ((cols, rows) \<in> set (target_ratios_gen 1 6) \<or> (cols, rows) = (1, 1) \<or> (cols, rows) = (2, 2)) \<and>
      ((cols, rows) \<in> set (target_ratios_gen 1 6) \<longrightarrow> 1 \<le> cols * rows \<and> cols * rows \<le> 6) \<and>
      ((1::int) \<le> 1 \<and> (4::int) \<le> 6 \<longrightarrow> 1 \<le> cols * rows \<and> cols * rows \<le> 6))"
proof -
  have h: "(600::int) \<noteq> 0" by simp
  from best_grid_bounds [OF h set_iteration_remdups, of id 448 800 1 6]
  show ?thesis using h set_iteration_remdups by blast
qed

lemma square_candidates:
  assumes "(k, k) \<in> set (target_ratios_gen mn mx)" and "mx \<le> 8"
  shows "k = 1 \<or> k = 2"
proof -
  from assms have k: "1 \<le> k" "k * k \<le> 8" by (auto simp: set_target_ratios_gen)
  have "k < 3"
  proof (rule ccontr)
    assume "\<not> k < 3"
    then have "3 \<le> k" by simp
    then have "3 * 3 \<le> k * k" by (intro mult_mono) simp_all
    with k show False by simp
  qed
  with k show ?thesis by auto
qed

text \<open>
  Claim C6 (amended). For a square image, \<open>min_num \<le> 1\<close> and \<open>4 \<le> max_num \<le> 8\<close>, whatever
  the order in which the candidates are enumerated, \<open>best_grid\<close> returns \<open>(1, 1)\<close> when
  \<open>width * height < image_size\<^sup>2\<close> and \<open>(2, 2)\<close> otherwise: up to 8 tiles, \<open>(1, 1)\<close> and
  \<open>(2, 2)\<close> are the only candidates of ratio 1.
\<close>

theorem best_grid_square:
  assumes "set_iteration set_order" and "width \<noteq> 0"
    and "exact_on_squares rnd (target_ratios_gen min_num max_num)"
    and "min_num \<le> 1" and "4 \<le> max_num" and "max_num \<le> 8"
  shows "best_grid rnd set_order image_size width width min_num max_num
           = Inr (if width * width < image_size * image_size then (1, 1) else (2, 2))"
proof -
  let ?gen = "target_ratios_gen min_num max_num"
  from best_grid_loop [OF assms(2,1), of rnd width min_num max_num image_size]
  obtain bd b where
    loop: "closest_loop rnd (rnd (of_int width / of_int width))
             (set_order ?gen) (None, (1, 1)) = Inr (bd, b)" and
    res: "best_grid rnd set_order image_size width width min_num max_num
             = Inr (special_cases image_size (width * width) b)"
    by blast
  have a: "rnd (of_int width / of_int width) = 1"
    using assms(2,3) by (simp add: exact_on_squares_def)
  have one: "(1, 1) \<in> set (set_order ?gen)"
    using assms(1,4,5) by (simp add: set_iteration_def set_target_ratios_gen)
  have d1: "ratio_diff rnd 1 (1, 1) = 0"
    using assms(3) by (simp add: ratio_diff_def exact_on_squares_def)
  have loop1: "closest_loop rnd 1 (set_order ?gen) (None, (1, 1)) = Inr (bd, b)"
    using loop a by simp
  from closest_loop_min [OF loop1] one
  have "\<exists>d. bd = Some d \<and> d \<le> ratio_diff rnd 1 (1, 1)" by blast
  then obtain d where d: "bd = Some d" "d \<le> 0" using d1 by auto
  from closest_loop_min [OF loop1] d
  have "\<exists>r\<in>set (set_order ?gen). bd = Some (ratio_diff rnd 1 r) \<and> b = r" by blast
  then obtain r where r: "r \<in> set (set_order ?gen)" "d = ratio_diff rnd 1 r" "b = r"
    using d by blast
  have "0 \<le> ratio_diff rnd 1 r" by (simp add: ratio_diff_def)
  with d r have zero: "ratio_diff rnd 1 b = 0" by simp
  have bgen: "b \<in> set ?gen" using r assms(1) by (simp add: set_iteration_def)
  have "fst b = snd b"
  proof (rule ccontr)
    assume "fst b \<noteq> snd b"
    with assms(3) bgen have "rnd (1 - rnd (of_int (fst b) / of_int (snd b))) \<noteq> 0"
      by (simp add: exact_on_squares_def)
    with zero show False by (simp add: ratio_diff_def)
  qed
  then obtain k where k: "b = (k, k)" by (cases b) simp
  with bgen assms(6) have "k = 1 \<or> k = 2" using square_candidates by blast
  then have "special_cases image_size (width * width) b
               = (if width * width < image_size * image_size then (1, 1) else (2, 2))"
    using k by (auto simp: special_cases_def)
  with res show ?thesis by simp
qed

lemma exact_on_squares_id: "exact_on_squares id (target_ratios_gen mn mx)"
  by (auto simp: exact_on_squares_def set_target_ratios_gen)

theorem best_grid_square_witness:
  "set_iteration remdups \<and> (100::int) \<noteq> 0 \<and> exact_on_squares id (target_ratios_gen 1 6) \<and>
   (1::int) \<le> 1 \<and> (4::int) \<le> 6 \<and> (6::int) \<le> 8 \<and>
   best_grid id remdups 448 100 100 1 6 = Inr (1, 1) \<and>
   best_grid id remdups 448 448 448 1 6 = Inr (2, 2)"
  using best_grid_square [OF set_iteration_remdups _ exact_on_squares_id, of 100 1 6 448]
    best_grid_square [OF set_iteration_remdups _ exact_on_squares_id, of 448 1 6 448]
    set_iteration_remdups exact_on_squares_id [of 1 6]
  by simp

text \<open>
  From \<open>max_num = 9\<close> on, \<open>(3, 3)\<close> is a candidate of ratio 1 too, the first candidate of
  ratio 1 that the loop meets wins, and no special case applies to \<open>(3, 3)\<close>: in an order
  that has it before \<open>(1, 1)\<close> and \<open>(2, 2)\<close> a square image of 100 by 100 gets nine
  tiles.
\<close>

theorem best_grid_square_counterexample:
  "set_iteration reversed_order \<and> (1::int) \<le> 1 \<and> (4::int) \<le> 9 \<and>
   (100::int) * 100 < 448 * 448 \<and>
   best_grid id reversed_order 448 100 100 1 9 = Inr (3, 3)"
  apply (simp add: set_iteration_reversed_order)
  apply (simp add: best_grid_def py_truediv_def find_closest_aspect_ratio_def special_cases_def
      target_ratios_gen_def reversed_order_def upto.simps Let_def)
  done

lemma map_err_Inr:
  "(\<And>x. x \<in> set xs \<Longrightarrow> f x = Inr (g x)) \<Longrightarrow> map_err f xs = Inr (map g xs)"
  by (induction xs) simp_all

lemma crop_box_size:
  assumes "0 < image_size" and "1 \<le> cols"
  shows "\<exists>x0 y0. crop_box image_size (image_size * cols) i
                    = Inr (x0, y0, x0 + image_size, y0 + image_size)"
proof -
  have "image_size * cols div image_size = cols" using assms by simp
  then show ?thesis using assms by (simp add: crop_box_def algebra_simps)
qed

text \<open>
  Claim C4. For every image of non-zero height, every positive tile size and the grid
  \<open>(cols, rows)\<close> that \<open>best_grid\<close> chooses, \<open>dynamic_preprocess\<close> returns \<open>cols * rows\<close>
  tiles without the thumbnail option; with it, \<open>cols * rows + 1\<close> tiles when
  \<open>cols * rows > 1\<close> and one tile when \<open>cols * rows = 1\<close>; every tile returned is
  \<open>image_size\<close> by \<open>image_size\<close>.
\<close>

theorem dynamic_preprocess_tiles:
  assumes "snd (im_size img) \<noteq> 0" and "set_iteration set_order" and "0 < image_size"
  shows "\<exists>cols rows tiles.
           best_grid rnd set_order image_size (fst (im_size img)) (snd (im_size img))
             min_num max_num = Inr (cols, rows) \<and>
           dynamic_preprocess rnd set_order image_size use_thumbnail img min_num max_num
             = Inr tiles \<and>
           1 \<le> cols * rows \<and>
           int (length tiles)
             = (if use_thumbnail \<and> cols * rows \<noteq> 1 then cols * rows + 1 else cols * rows) \<and>
           (\<forall>t\<in>set tiles. im_size t = (image_size, image_size))"
proof -
  from best_grid_candidates [OF assms(1,2), of rnd image_size "fst (im_size img)" min_num max_num]
  obtain cols rows where
    grid: "best_grid rnd set_order image_size (fst (im_size img)) (snd (im_size img))
             min_num max_num = Inr (cols, rows)" and
    pos: "1 \<le> cols" "1 \<le> rows"
    by blast
  define resized where "resized = Resize img (image_size * cols, image_size * rows)"
  define f where "f = (\<lambda>i. map_sum id (Crop resized) (crop_box image_size (image_size * cols) i))"
  have "\<forall>i. \<exists>t. f i = Inr t \<and> im_size t = (image_size, image_size)"
  proof
    fix i
    from crop_box_size [OF assms(3) pos(1), of i]
    obtain x0 y0 where "crop_box image_size (image_size * cols) i
                          = Inr (x0, y0, x0 + image_size, y0 + image_size)"
      by blast
    then show "\<exists>t. f i = Inr t \<and> im_size t = (image_size, image_size)"
      by (simp add: f_def)
  qed
  then obtain g where g: "\<And>i. f i = Inr (g i)" "\<And>i. im_size (g i) = (image_size, image_size)"
    by metis
  define crops where "crops = map g [0..cols * rows - 1]"
  have crops: "map_err f [0..cols * rows - 1] = Inr crops"
    unfolding crops_def by (rule map_err_Inr) (simp add: g)
  have "1 * 1 \<le> cols * rows" using pos by (intro mult_mono) simp_all
  then have blocks: "1 \<le> cols * rows" by simp
  have len: "int (length crops) = cols * rows" using blocks by (simp add: crops_def)
  have sizes: "\<forall>t\<in>set crops. im_size t = (image_size, image_size)"
    by (auto simp: crops_def g)
  define tiles where
    "tiles = (if use_thumbnail \<and> length crops \<noteq> 1
              then crops @ [Resize img (image_size, image_size)] else crops)"
  have dp: "dynamic_preprocess rnd set_order image_size use_thumbnail img min_num max_num
              = Inr tiles"
    using grid crops len
    by (simp add: dynamic_preprocess_def Let_def f_def resized_def tiles_def)
  have one: "length crops \<noteq> 1 \<longleftrightarrow> cols * rows \<noteq> 1" using len by auto
  have tl: "int (length tiles)
              = (if use_thumbnail \<and> cols * rows \<noteq> 1 then cols * rows + 1 else cols * rows)"
    using len one by (simp add: tiles_def)
  have ts: "\<forall>t\<in>set tiles. im_size t = (image_size, image_size)"
    using sizes by (simp add: tiles_def)
  from grid dp blocks tl ts show ?thesis by blast
qed

theorem dynamic_preprocess_tiles_witness:
  "snd (im_size (Source 800 600)) \<noteq> 0 \<and> set_iteration remdups \<and> (0::int) < 448 \<and>
   best_grid id remdups 448 800 600 1 6 = Inr (2, 2) \<and>
   dynamic_preprocess id remdups 448 True (Source 800 600) 1 6 =
     Inr [Crop (Resize (Source 800 600) (896, 896)) (0, 0, 448, 448),
          Crop (Resize (Source 800 600) (896, 896)) (448, 0, 896, 448),
          Crop (Resize (Source 800 600) (896, 896)) (0, 448, 448, 896),
          Crop (Resize (Source 800 600) (896, 896)) (448, 448, 896, 896),
          Resize (Source 800 600) (448, 448)]"
proof -
  have h: "snd (im_size (Source 800 600)) \<noteq> 0" "(0::int) < 448" by simp_all
  have bg: "best_grid id remdups 448 800 600 1 6 = Inr (2, 2)"
    by (simp add: best_grid_def py_truediv_def find_closest_aspect_ratio_def special_cases_def
      target_ratios_gen_def upto.simps Let_def)
  from dynamic_preprocess_tiles [OF h(1) set_iteration_remdups h(2),
      where rnd = id and use_thumbnail = True and min_num = 1 and max_num = 6]
  obtain tiles where
    t: "dynamic_preprocess id remdups 448 True (Source 800 600) 1 6 = Inr tiles"
       "int (length tiles) = 5"
    using bg by auto
  have "dynamic_preprocess id remdups 448 True (Source 800 600) 1 6 =
     Inr [Crop (Resize (Source 800 600) (896, 896)) (0, 0, 448, 448),
          Crop (Resize (Source 800 600) (896, 896)) (448, 0, 896, 448),
          Crop (Resize (Source 800 600) (896, 896)) (0, 448, 448, 896),
          Crop (Resize (Source 800 600) (896, 896)) (448, 448, 896, 896),
          Resize (Source 800 600) (448, 448)]"
    using bg by (simp add: dynamic_preprocess_def Let_def crop_box_def upto.simps)
  with h bg set_iteration_remdups t show ?thesis by simp
qed

section \<open>Properties of the JSON-lines loader\<close>

lemma funpow_butlast: "(butlast ^^ k) s = trim k s"
proof (induction k arbitrary: s)
  case 0
  then show ?case by (simp add: trim_def)
next
  case (Suc k)
  have "(butlast ^^ Suc k) s = (butlast ^^ k) (butlast s)" by (simp add: funpow_swap1)
  also have "\<dots> = trim k (butlast s)" by (rule Suc.IH)
  also have "\<dots> = trim (Suc k) s" by (simp add: trim_def butlast_conv_take)
  finally show ?case .
qed








section \<open>Properties of the interleaved dataset\<close>







lemma scan_shards_gap:
  "\<forall>(name, start, end) \<in> set tbl. \<not> (start \<le> index \<and> index < end) \<Longrightarrow>
   scan_shards env s index tbl = (Inr None, s)"
  by (induction tbl) auto

lemma shard_table_gap:
  assumes "0 < n" and "(name, start, end) \<in> set (shard_table n order)"
  shows "\<not> (start \<le> n * (k + 1) - 1 \<and> n * (k + 1) - 1 < end)"
proof
  assume h: "start \<le> n * (k + 1) - 1 \<and> n * (k + 1) - 1 < end"
  from assms(2) obtain i where i: "start = n * int i" "end = n * (int i + 1) - 1"
    by (auto simp: shard_table_def)
  from h i have "n * int i < n * (k + 1)" "n * (k + 1) < n * (int i + 1)" by simp_all
  then have "int i < k + 1" "k + 1 < int i + 1"
    using assms(1) by (simp_all add: mult_less_cancel_left_pos)
  then show False by simp
qed

lemma map_of_shard_table_first:
  "order \<noteq> [] \<Longrightarrow> map_of (shard_table n order) (shard_file (order ! 0)) = Some (0, n - 1)"
  by (simp add: shard_table_def upt_conv_Cons)

lemma load_data_gap:
  assumes "shard_mode s" and "shard_id_range s = shard_table n order" and "0 < n"
    and "map_of (shard_id_range s) (current_shard_name s) = Some (start, end)"
    and "\<not> (start \<le> n * (k + 1) - 1 \<and> n * (k + 1) - 1 \<le> end)"
    and "n * (k + 1) - 1 < length' s"
  shows "load_data env s (n * (k + 1) - 1) = (Inr None, s)"
proof -
  have "\<forall>(name, start, end) \<in> set (shard_table n order).
          \<not> (start \<le> n * (k + 1) - 1 \<and> n * (k + 1) - 1 < end)"
    using shard_table_gap [OF assms(3)] by blast
  then have "scan_shards env s (n * (k + 1) - 1) (shard_table n order) = (Inr None, s)"
    by (rule scan_shards_gap)
  then show ?thesis using assms by (auto simp: load_data_def Let_def)
qed

lemma partition_for_rank_all:
  "partition_for_rank xs 0 1 = Inr xs" "partition_for_rank xs 0 (Suc 0) = Inr xs"
  by (simp_all add: partition_for_rank_def map_nth)

lemma init_state:
  assumes "init env annotation root' n_tok mx tns resampled g0 = Inr s"
  shows "shard_mode s \<and> length' s = 34190 * 6144 \<and> train_num_samples s = tns \<and>
         shard_order s \<noteq> [] \<and> shard_id_range s = shard_table 34190 (shard_order s) \<and>
         current_shard_name s = shard_file (shard_order s ! 0)"
  using assms
  by (auto simp: init_def partition_for_rank_all py_index_def Let_def
      split: sum.splits prod.splits if_splits)

lemma load_data_init_gap:
  assumes "init env annotation root' n_tok mx tns resampled g0 = Inr s"
    and "1 \<le> k" and "k < 6144"
  shows "load_data env s (34190 * (k + 1) - 1) = (Inr None, s)"
proof -
  from init_state [OF assms(1)] have
    st: "shard_mode s" "length' s = 34190 * 6144" "shard_order s \<noteq> []"
      "shard_id_range s = shard_table 34190 (shard_order s)"
      "current_shard_name s = shard_file (shard_order s ! 0)"
    by simp_all
  have hot: "map_of (shard_id_range s) (current_shard_name s) = Some (0, 34190 - 1)"
    using st map_of_shard_table_first [of "shard_order s" 34190] by simp
  show ?thesis
    using st(1,4) _ hot
  proof (rule load_data_gap)
    show "(0::int) < 34190" by simp
    show "\<not> (0 \<le> 34190 * (k + 1) - 1 \<and> 34190 * (k + 1) - 1 \<le> 34190 - 1)"
      using assms(2) by simp
    show "34190 * (k + 1) - 1 < length' s" using assms(3) st(2) by simp
  qed
qed

text \<open>
  The table that \<open>__init__\<close> builds does not pass the class's own check: read as
  \<open>range(start, end)\<close>, its ranges leave out the last index of every shard.
\<close>

lemma check_shard_id_range_init:
  assumes "init env annotation root' n_tok mx tns resampled g0 = Inr s"
  shows "check_shard_id_range (shard_id_range s) (length' s) = Inl AssertionError"
proof -
  from init_state [OF assms] have
    st: "length' s = 34190 * 6144" "shard_id_range s = shard_table 34190 (shard_order s)"
    by simp_all
  define ids where
    "ids = concat (map (\<lambda>(name, start, end). [start..end - 1]) (shard_table 34190 (shard_order s)))"
  have "34189 \<notin> set ids"
  proof
    assume "34189 \<in> set ids"
    then obtain name start "end" where
      e: "(name, start, end) \<in> set (shard_table 34190 (shard_order s))"
        "start \<le> 34189" "34189 < end"
      by (auto simp: ids_def)
    from shard_table_gap [OF _ e(1), of 0] e(2,3) show False by simp
  qed
  moreover have "set (py_slice_to (sort ids) (length' s)) \<subseteq> set ids"
    using set_take_subset [of _ "sort ids"] by (simp add: py_slice_to_def)
  ultimately have "34189 \<notin> set (py_slice_to (sort ids) (length' s))" by blast
  moreover have "34189 \<in> set [0..length' s - 1]" using st by simp
  ultimately have "py_slice_to (sort ids) (length' s) \<noteq> [0..length' s - 1]" by metis
  then show ?thesis by (simp add: check_shard_id_range_def st(2) ids_def)
qed

text \<open>
  Claim C2, on the code. The claim asks that an index that no shard range contains, as the
  lookup reads the ranges, makes \<open>load_data\<close> raise. There is no such \<open>raise\<close>: the loop
  over the ranges ends, and \<open>load_data\<close> returns \<open>None\<close>. And there are such indices: the
  table holds the last index of each shard as \<open>end\<close>, the test on the current shard is
  \<open>start \<le> index \<le> end\<close>, the test of the loop is \<open>start \<le> index < end\<close>. So, on a
  dataset as \<open>__init__\<close> leaves it, in every environment, the last index of each shard but
  the first, \<open>34190 * (k + 1) - 1\<close> for \<open>1 \<le> k < 6144\<close>, is in no range for the loop:
  \<open>load_data\<close> returns \<open>None\<close> and changes nothing.
\<close>

theorem load_data_last_of_shard:
  assumes "init env annotation root' n_tok mx tns resampled g0 = Inr s"
    and "1 \<le> k" and "k < 6144"
  shows "load_data env s (34190 * (k + 1) - 1) = (Inr None, s)"
  using assms by (rule load_data_init_gap)

lemma toy_env_files:
  "shuffle_order toy_env g order = (order, g)" "shuffle_data toy_env g data = (data, g)"
  "read_lines toy_env path = Inr []"
  by (simp_all add: toy_env_def)

lemma init_toy:
  "\<exists>s. init toy_env ''ann'' ''root'' 256 6 tns True () = Inr s"
proof -
  have "py_index [0..6143] 0 = Inr 0" by (simp add: py_index_def)
  then show ?thesis
    by (simp add: init_def partition_for_rank_all toy_env_files load_jsonl_def)
qed

theorem load_data_last_of_shard_witness:
  "\<exists>s. init toy_env ''ann'' ''root'' 256 6 None True () = Inr s \<and> (1::int) \<le> 1 \<and> (1::int) < 6144 \<and>
       load_data toy_env s 68379 = (Inr None, s)"
proof -
  from init_toy obtain s where s: "init toy_env ''ann'' ''root'' 256 6 None True () = Inr s"
    by blast
  from load_data_last_of_shard [OF s, of 1] have "load_data toy_env s 68379 = (Inr None, s)"
    by simp
  with s show ?thesis by simp
qed

lemma scan_shards_config:
  "scan_shards env s index tbl = (r, s') \<Longrightarrow>
   train_num_samples s' = train_num_samples s \<and> length' s' = length' s"
  by (induction tbl) (auto simp: Let_def split: if_splits sum.splits prod.splits)

lemma load_data_config:
  "load_data env s index = (r, s') \<Longrightarrow>
   train_num_samples s' = train_num_samples s \<and> length' s' = length' s"
  by (auto simp: load_data_def Let_def split: if_splits option.splits sum.splits
      dest: scan_shards_config)

lemma getitem_config:
  "getitem env s index = (r, s') \<Longrightarrow>
   train_num_samples s' = train_num_samples s \<and> length' s' = length' s"
  by (auto simp: getitem_def split: prod.splits sum.splits dest: load_data_config)

lemma getitem_retry_success:
  "getitem env s index = (Inr item, s') \<Longrightarrow> getitem_retry env s index = Some (Inr item, s')"
  by (subst getitem_retry.simps) simp

lemma getitem_retry_skip:
  assumes "getitem env s index = (Inl err, s')"
    and "train_num_samples s = None" and "length' s \<noteq> 0"
  shows "getitem_retry env s index = getitem_retry env s' ((index + 1) mod length' s)"
  using assms getitem_config [OF assms(1)]
  by (subst getitem_retry.simps) (simp add: len_dataset_def)

text \<open>
  Claim C3, on the code. The claim asks that \<open>__getitem__\<close> never raises. With
  \<open>train_num_samples\<close> set, the first exception of \<open>getitem\<close> is caught, the handler calls
  \<open>len(self)\<close>, and \<open>__len__\<close> raises \<open>AttributeError\<close>, which leaves \<open>__getitem__\<close>. (With
  \<open>train_num_samples\<close> unset the loop does what the claim says: a success is returned, a
  failure moves to \<open>(index + 1) mod _length\<close>, no exception leaves the loop, and a loop
  that ends within \<open>k\<close> calls of \<open>getitem\<close> returns what it has then; see
  \<open>getitem_retry_success\<close>, \<open>getitem_retry_skip\<close>, \<open>getitem_retry_never_raises\<close> and
  \<open>getitem_fuel_retry\<close>.)
\<close>

theorem getitem_retry_raises:
  assumes "train_num_samples s = Some n" and "getitem env s index = (Inl err, s')"
  shows "getitem_retry env s index = Some (Inl AttributeError, s')"
  using assms getitem_config [OF assms(2)]
  by (subst getitem_retry.simps) (simp add: len_dataset_def)

theorem getitem_retry_raises_witness:
  "\<exists>s. init toy_env ''ann'' ''root'' 256 6 (Some 1000) True () = Inr s \<and>
       train_num_samples s = Some 1000 \<and>
       getitem toy_env s 68379 = (Inl TypeError, s) \<and>
       getitem_retry toy_env s 68379 = Some (Inl AttributeError, s)"
proof -
  from init_toy obtain s where
    s: "init toy_env ''ann'' ''root'' 256 6 (Some 1000) True () = Inr s"
    by blast
  have t: "train_num_samples s = Some 1000" using init_state [OF s] by simp
  from load_data_init_gap [OF s, of 1] have "load_data toy_env s 68379 = (Inr None, s)"
    by simp
  then have g: "getitem toy_env s 68379 = (Inl TypeError, s)"
    by (simp add: getitem_def assemble_def)
  from getitem_retry_raises [OF t g] s t g show ?thesis by blast
qed

lemma getitem_fuel_retry:
  "getitem_fuel k env s index = Some y \<Longrightarrow> getitem_retry env s index = Some y"
proof (induction k arbitrary: s index)
  case 0
  then show ?case by simp
next
  case (Suc k)
  obtain r s' where g: "getitem env s index = (r, s')" by (cases "getitem env s index")
  show ?case
  proof (cases r)
    case (Inr item)
    with Suc.prems g have "y = (Inr item, s')" by simp
    with g Inr show ?thesis by (simp add: getitem_retry_success)
  next
    case (Inl err)
    note r = this
    show ?thesis
    proof (cases "len_dataset s'")
      case (Inl e)
      with Suc.prems g r have "y = (Inl e, s')" by simp
      with g r Inl show ?thesis by (subst getitem_retry.simps) simp
    next
      case (Inr n)
      show ?thesis
      proof (cases "n = 0")
        case True
        with Suc.prems g r Inr have "y = (Inl ZeroDivisionError, s')" by simp
        with g r Inr True show ?thesis by (subst getitem_retry.simps) simp
      next
        case False
        with Suc.prems g r Inr
        have "getitem_fuel k env s' ((index + 1) mod n) = Some y" by simp
        from Suc.IH [OF this] g r Inr False show ?thesis
          by (subst getitem_retry.simps) simp
      qed
    qed
  qed
qed

lemma getitem_retry_results:
  assumes "getitem_retry env s index = Some y"
  shows "train_num_samples s = None \<longrightarrow> length' s \<noteq> 0 \<longrightarrow> (\<exists>item. fst y = Inr item)"
  using assms
proof (induction env s index y
    rule: getitem_retry.raw_induct [rotated 1, consumes 1, case_names step])
  case (step f env s index y)
  show ?case
  proof (intro impI)
    assume cfg: "train_num_samples s = None" "length' s \<noteq> 0"
    obtain r0 s0 where g: "getitem env s index = (r0, s0)" by (cases "getitem env s index")
    from getitem_config [OF g] cfg
    have cfg0: "train_num_samples s0 = None" "length' s0 \<noteq> 0" by simp_all
    show "\<exists>item. fst y = Inr item"
    proof (cases r0)
      case (Inr item)
      with step(2) g show ?thesis by auto
    next
      case (Inl err)
      with step(2) g cfg0 have "f env s0 ((index + 1) mod length' s0) = Some y"
        by (simp add: len_dataset_def)
      from step(1) [OF this] cfg0 show ?thesis by simp
    qed
  qed
qed

lemma getitem_retry_never_raises:
  assumes "getitem_retry env s index = Some (r, s')"
    and "train_num_samples s = None" and "length' s \<noteq> 0"
  shows "\<exists>item. r = Inr item"
  using getitem_retry_results [OF assms(1)] assms(2,3) by simp

lemma mask_labels_eq:
  "mask_labels env tok ids =
     map (\<lambda>t. if t = convert_tokens_to_ids tok (IMG_START_TOKEN env)
                 \<or> t = convert_tokens_to_ids tok (IMG_END_TOKEN env)
                 \<or> t = convert_tokens_to_ids tok (IMG_CONTEXT_TOKEN env)
              then - 100 else t) ids"
  by (auto simp: mask_labels_def Let_def)

lemma example_text:
  "assemble_text env budget [Some ''<image>'', Some ''caption''] (Suc 0) =
     IMG_START_TOKEN env @ concat (replicate (nat budget) (IMG_CONTEXT_TOKEN env))
       @ IMG_END_TOKEN env @ ''caption''"
  by (simp add: assemble_text_def py_replace_all_def newlines_def Let_def)

lemma assemble_example_cases:
  assumes "open_image env (os_path_join (image_path s) (sha256_hex env A)) = Inr im"
    and "1 \<le> max_num_images s"
  shows "assemble env s (Some (example_sample A m)) =
           (case global_tokenizer env of
              None \<Rightarrow> Inl NameError
            | Some tok \<Rightarrow>
               (case tokenizer env (model_max_length tok)
                       (IMG_START_TOKEN env
                          @ concat (replicate (nat (num_image_token s)) (IMG_CONTEXT_TOKEN env))
                          @ IMG_END_TOKEN env @ ''caption'') of
                  Inl e \<Rightarrow> Inl e
                | Inr ids \<Rightarrow>
                    if int (length (filter (\<lambda>t. t = convert_tokens_to_ids tok (IMG_CONTEXT_TOKEN env))
                                      ids))
                         \<noteq> num_image_token s
                    then Inl AssertionError
                    else Inr \<lparr>input_ids = ids,
                             labels = map (\<lambda>t. if t = convert_tokens_to_ids tok (IMG_START_TOKEN env)
                                                  \<or> t = convert_tokens_to_ids tok (IMG_END_TOKEN env)
                                                  \<or> t = convert_tokens_to_ids tok (IMG_CONTEXT_TOKEN env)
                                               then - 100 else t) ids,
                             attention_mask = map (\<lambda>t. t \<noteq> pad_token_id tok) ids,
                             pixel_values = [transform env im],
                             image_flags = [1]\<rparr>))"
proof -
  have parse: "parse_sample env (example_sample A m)
                 = Inr ([Some A, None], [None, Some ''caption''], [Some m, None], [True])"
    by (simp add: parse_sample_def example_sample_def)
  have load: "load_images env (max_num_images s) 0
                [(os_path_join (image_path s) (sha256_hex env A), True)] ([], 0, [True])
                = ([im], 1, [True])"
    using assms by (simp add: load_image_def)
  have mark: "mark_images [True] 0 [None, Some ''caption'']
                = Inr [Some ''<image>'', Some ''caption'']"
    by (simp add: py_index_def)
  show ?thesis
    by (simp add: assemble_def parse load mark example_text mask_labels_eq
        del: load_images.simps mark_images.simps split: sum.splits option.splits)
qed

text \<open>
  Claim C8. For the record with images \<open>[A, None]\<close>, texts \<open>[None, "caption"]\<close>, metadata
  \<open>[m, None]\<close> and valid flags \<open>[True]\<close>, whose image loads, and at least one image
  allowed: the text that \<open>getitem\<close> builds from the loaded record is one placeholder block,
  the start marker, \<open>num_image_token\<close> context markers and the end marker, followed by the
  caption. \<open>getitem\<close> returns if the global \<open>tokenizer\<close> is bound, the tokenizer returns
  ids for that text and the id of the context marker occurs \<open>num_image_token\<close> times among
  them, and raises otherwise; and whenever it returns, the token ids are those of that
  text, with \<open>num_image_token\<close> occurrences of the id of the context marker, and the
  labels are the ids except at the ids of the three markers, where they are \<open>-100\<close>.
\<close>

theorem assemble_example:
  assumes "open_image env (os_path_join (image_path s) (sha256_hex env A)) = Inr im"
    and "1 \<le> max_num_images s"
  shows "assemble env s (Some (example_sample A m)) =
           (case global_tokenizer env of
              None \<Rightarrow> Inl NameError
            | Some tok \<Rightarrow>
               (case tokenizer env (model_max_length tok)
                       (IMG_START_TOKEN env
                          @ concat (replicate (nat (num_image_token s)) (IMG_CONTEXT_TOKEN env))
                          @ IMG_END_TOKEN env @ ''caption'') of
                  Inl e \<Rightarrow> Inl e
                | Inr ids \<Rightarrow>
                    if int (length (filter (\<lambda>t. t = convert_tokens_to_ids tok (IMG_CONTEXT_TOKEN env))
                                      ids))
                         \<noteq> num_image_token s
                    then Inl AssertionError
                    else Inr \<lparr>input_ids = ids,
                             labels = map (\<lambda>t. if t = convert_tokens_to_ids tok (IMG_START_TOKEN env)
                                                  \<or> t = convert_tokens_to_ids tok (IMG_END_TOKEN env)
                                                  \<or> t = convert_tokens_to_ids tok (IMG_CONTEXT_TOKEN env)
                                               then - 100 else t) ids,
                             attention_mask = map (\<lambda>t. t \<noteq> pad_token_id tok) ids,
                             pixel_values = [transform env im],
                             image_flags = [1]\<rparr>)) \<and>
         (\<forall>ret. assemble env s (Some (example_sample A m)) = Inr ret \<longrightarrow>
            (\<exists>tok. global_tokenizer env = Some tok \<and>
               tokenizer env (model_max_length tok)
                 (IMG_START_TOKEN env
                    @ concat (replicate (nat (num_image_token s)) (IMG_CONTEXT_TOKEN env))
                    @ IMG_END_TOKEN env @ ''caption'') = Inr (input_ids ret) \<and>
               int (length (filter (\<lambda>t. t = convert_tokens_to_ids tok (IMG_CONTEXT_TOKEN env))
                              (input_ids ret))) = num_image_token s \<and>
               labels ret = map (\<lambda>t. if t = convert_tokens_to_ids tok (IMG_START_TOKEN env)
                                        \<or> t = convert_tokens_to_ids tok (IMG_END_TOKEN env)
                                        \<or> t = convert_tokens_to_ids tok (IMG_CONTEXT_TOKEN env)
                                     then - 100 else t) (input_ids ret)))"
proof (intro conjI allI impI)
  show "assemble env s (Some (example_sample A m)) =
           (case global_tokenizer env of
              None \<Rightarrow> Inl NameError
            | Some tok \<Rightarrow>
               (case tokenizer env (model_max_length tok)
                       (IMG_START_TOKEN env
                          @ concat (replicate (nat (num_image_token s)) (IMG_CONTEXT_TOKEN env))
                          @ IMG_END_TOKEN env @ ''caption'') of
                  Inl e \<Rightarrow> Inl e
                | Inr ids \<Rightarrow>
                    if int (length (filter (\<lambda>t. t = convert_tokens_to_ids tok (IMG_CONTEXT_TOKEN env))
                                      ids))
                         \<noteq> num_image_token s
                    then Inl AssertionError
                    else Inr \<lparr>input_ids = ids,
                             labels = map (\<lambda>t. if t = convert_tokens_to_ids tok (IMG_START_TOKEN env)
                                                  \<or> t = convert_tokens_to_ids tok (IMG_END_TOKEN env)
                                                  \<or> t = convert_tokens_to_ids tok (IMG_CONTEXT_TOKEN env)
                                               then - 100 else t) ids,
                             attention_mask = map (\<lambda>t. t \<noteq> pad_token_id tok) ids,
                             pixel_values = [transform env im],
                             image_flags = [1]\<rparr>))"
    using assms by (rule assemble_example_cases)
next
  fix ret
  assume "assemble env s (Some (example_sample A m)) = Inr ret"
  then show "\<exists>tok. global_tokenizer env = Some tok \<and>
               tokenizer env (model_max_length tok)
                 (IMG_START_TOKEN env
                    @ concat (replicate (nat (num_image_token s)) (IMG_CONTEXT_TOKEN env))
                    @ IMG_END_TOKEN env @ ''caption'') = Inr (input_ids ret) \<and>
               int (length (filter (\<lambda>t. t = convert_tokens_to_ids tok (IMG_CONTEXT_TOKEN env))
                              (input_ids ret))) = num_image_token s \<and>
               labels ret = map (\<lambda>t. if t = convert_tokens_to_ids tok (IMG_START_TOKEN env)
                                        \<or> t = convert_tokens_to_ids tok (IMG_END_TOKEN env)
                                        \<or> t = convert_tokens_to_ids tok (IMG_CONTEXT_TOKEN env)
                                     then - 100 else t) (input_ids ret)"
    unfolding assemble_example_cases [OF assms]
    by (auto split: option.splits sum.splits if_splits)
qed

theorem assemble_example_witness:
  "open_image toy_env (os_path_join (image_path toy_dataset) (sha256_hex toy_env ''A''))
     = Inr ''root/A'' \<and>
   1 \<le> max_num_images toy_dataset \<and>
   assemble toy_env toy_dataset (Some (example_sample ''A'' ''m'')) =
     Inr \<lparr>input_ids = [1, 3, 3, 2, 109, 107, 122, 126, 115, 121, 120],
          labels = [- 100, - 100, - 100, - 100, 109, 107, 122, 126, 115, 121, 120],
          attention_mask = [True, True, True, True, True, True, True, True, True, True, True],
          pixel_values = [''root/A''], image_flags = [1]\<rparr> \<and>
   int (length (filter (\<lambda>t. t = toy_ids (IMG_CONTEXT_TOKEN toy_env))
                  [1, 3, 3, 2, 109, 107, 122, 126, 115, 121, 120]))
     = num_image_token toy_dataset"
proof -
  have im: "open_image toy_env (os_path_join (image_path toy_dataset) (sha256_hex toy_env ''A''))
              = Inr ''root/A''"
    by (simp add: toy_env_def toy_dataset_def os_path_join_def)
  have mx: "1 \<le> max_num_images toy_dataset" by (simp add: toy_dataset_def)
  have ret: "assemble toy_env toy_dataset (Some (example_sample ''A'' ''m'')) =
     Inr \<lparr>input_ids = [1, 3, 3, 2, 109, 107, 122, 126, 115, 121, 120],
          labels = [- 100, - 100, - 100, - 100, 109, 107, 122, 126, 115, 121, 120],
          attention_mask = [True, True, True, True, True, True, True, True, True, True, True],
          pixel_values = [''root/A''], image_flags = [1]\<rparr>"
    by code_simp
  have tok: "global_tokenizer toy_env
               = Some \<lparr>model_max_length = 2048, convert_tokens_to_ids = toy_ids, pad_token_id = 0\<rparr>"
    by (simp add: toy_env_def)
  from assemble_example [OF im mx, of "''m''", THEN conjunct2, rule_format, OF ret] tok
  have "int (length (filter (\<lambda>t. t = toy_ids (IMG_CONTEXT_TOKEN toy_env))
                  [1, 3, 3, 2, 109, 107, 122, 126, 115, 121, 120]))
     = num_image_token toy_dataset"
    by auto
  with im mx ret show ?thesis by simp
qed

end
